theory Spec2Isabelle
  imports
    Complex_Main
    "HOL-Library.Sublist"
    "HOL-Library.Char_ord"
    "HOL-Library.List_Lexorder"
begin

section \<open>Semantic search service of the A2A registry\<close>

text \<open>
  The development embeds the semantic-search service (\<^verbatim>\<open>embeddings.py\<close>,
  \<^verbatim>\<open>database.py\<close>, \<^verbatim>\<open>models.py\<close>, \<^verbatim>\<open>main.py\<close>).

  Conventions of the embedding:
  \<^item> Python and PostgreSQL floats are idealised as real numbers; NaN, infinities and
    rounding error of binary floating point are outside the model.
  \<^item> A numpy vector is a list of reals.
  \<^item> An exception is the \<open>Inl\<close> branch of a sum type.
  \<^item> The sentence-transformer (\<^verbatim>\<open>model.encode\<close>) and the pgvector cosine-distance
    operator \<^verbatim>\<open><=>\<close> are libraries outside the repository; they are parameters
    \<open>encode\<close> and \<open>cosine_distance\<close> of the functions that call them.
  \<^item> The order in which PostgreSQL returns rows that the query's \<^verbatim>\<open>ORDER BY\<close> does
    not tell apart is a parameter \<open>tie_rank\<close> as well.
  \<^item> Wall-clock measurements (\<^verbatim>\<open>processing_time_ms\<close>) and logging are left out;
    \<^verbatim>\<open>CURRENT_TIMESTAMP\<close> is a parameter \<open>now\<close>.
\<close>

subsection \<open>Errors\<close>

datatype error =
    ValueError                \<comment> \<open>numpy: shapes not aligned\<close>
  | DivisionByZero            \<comment> \<open>a division whose divisor is zero\<close>
  | EncodeError               \<comment> \<open>the embedding model raised\<close>
  | DataError                 \<comment> \<open>PostgreSQL: value does not fit the column type\<close>
  | ForeignKeyViolation       \<comment> \<open>PostgreSQL: no such row in \<^verbatim>\<open>registry_entries\<close>\<close>
  | InvalidRowCount           \<comment> \<open>PostgreSQL: negative LIMIT\<close>
  | ValidationError           \<comment> \<open>pydantic: a field constraint is violated\<close>
  | HTTPException nat         \<comment> \<open>the handler's \<^verbatim>\<open>except Exception\<close> branch, with its status code\<close>

type_synonym vector = "real list"

subsection \<open>\<^verbatim>\<open>embeddings.py\<close>: cosine similarity\<close>

text \<open>\<^verbatim>\<open>np.linalg.norm\<close> of a one-dimensional array: the Euclidean norm.\<close>

definition linalg_norm :: "vector \<Rightarrow> real" where
  "linalg_norm v = sqrt (sum_list (map (\<lambda>x. x * x) v))"

text \<open>\<^verbatim>\<open>np.dot\<close> of two one-dimensional arrays raises \<^verbatim>\<open>ValueError\<close> when the
  lengths differ.\<close>

definition np_dot :: "vector \<Rightarrow> vector \<Rightarrow> error + real" where
  "np_dot a b =
     (if length a \<noteq> length b then Inl ValueError
      else Inr (sum_list (map (\<lambda>(x, y). x * y) (zip a b))))"

text \<open>The quotient \<^verbatim>\<open>x / y\<close>, with the division by zero made visible as an outcome
  of its own.\<close>

definition checked_div :: "real \<Rightarrow> real \<Rightarrow> error + real" where
  "checked_div x y = (if y = 0 then Inl DivisionByZero else Inr (x / y))"

text \<open>
  \<^verbatim>\<open>
  norm1 = np.linalg.norm(embedding1)
  norm2 = np.linalg.norm(embedding2)
  if norm1 == 0 or norm2 == 0:
      return 0.0
  similarity = np.dot(embedding1, embedding2) / (norm1 * norm2)
  return float(max(0.0, min(1.0, similarity)))
  \<close>
\<close>

definition compute_similarity :: "vector \<Rightarrow> vector \<Rightarrow> error + real" where
  "compute_similarity embedding1 embedding2 =
     (let norm1 = linalg_norm embedding1;
          norm2 = linalg_norm embedding2
      in if norm1 = 0 \<or> norm2 = 0 then Inr 0
         else (case np_dot embedding1 embedding2 of
                 Inl e \<Rightarrow> Inl e
               | Inr d \<Rightarrow>
                   (case checked_div d (norm1 * norm2) of
                      Inl e \<Rightarrow> Inl e
                    | Inr similarity \<Rightarrow> Inr (max 0 (min 1 similarity)))))"

subsection \<open>\<^verbatim>\<open>models.py\<close>: agent cards\<close>

text \<open>
  An agent card travels through the service as a dictionary. A field that
  \<^verbatim>\<open>dict.get\<close> does not find is \<open>None\<close>; \<^verbatim>\<open>skills\<close> is read with the default
  \<^verbatim>\<open>[]\<close>, so a missing key and the empty list coincide. Tag columns are lists of
  strings.
\<close>

record skill =
  skill_name :: "string option"
  skill_description :: "string option"

record agent_card =
  card_name :: "string option"
  card_description :: "string option"
  card_endpoint :: "string option"
  card_skills :: "skill list"

subsection \<open>\<^verbatim>\<open>embeddings.py\<close>: the text that is embedded for an agent\<close>

text \<open>\<^verbatim>\<open>sep.join(parts)\<close>.\<close>

fun join :: "string \<Rightarrow> string list \<Rightarrow> string" where
  "join sep [] = []"
| "join sep [p] = p"
| "join sep (p # q # ps) = p @ sep @ join sep (q # ps)"

text \<open>Python truthiness of \<^verbatim>\<open>d.get(key)\<close> for a string field: the walrus test
  \<^verbatim>\<open>if v := d.get(key)\<close> succeeds when the key is there and its string is not empty.\<close>

fun truthy :: "string option \<Rightarrow> bool" where
  "truthy None = False"
| "truthy (Some s) = (s \<noteq> [])"

text \<open>
  \<^verbatim>\<open>
  skill_text = f"Skill: {skill.get('name', '')}"
  if skill_desc := skill.get("description"):
      skill_text += f" - {skill_desc}"
  \<close>
\<close>

definition skill_text :: "skill \<Rightarrow> string" where
  "skill_text sk =
     ''Skill: '' @ (case skill_name sk of None \<Rightarrow> [] | Some n \<Rightarrow> n)
     @ (if truthy (skill_description sk) then '' - '' @ the (skill_description sk) else [])"

text \<open>The list \<^verbatim>\<open>text_parts\<close> of \<^verbatim>\<open>embed_agent\<close>, built in the order of the
  source's appends.\<close>

definition text_parts :: "agent_card \<Rightarrow> string list \<Rightarrow> string list" where
  "text_parts ac tags =
     (if truthy (card_name ac) then [''Agent: '' @ the (card_name ac)] else [])
     @ (if truthy (card_description ac)
        then [''Description: '' @ the (card_description ac)] else [])
     @ map skill_text (card_skills ac)
     @ (if tags \<noteq> [] then [''Tags: '' @ join '', '' tags] else [])"

text \<open>
  \<^verbatim>\<open>
  combined_text = " | ".join(text_parts) if text_parts else agent_card.get("name", "unknown")
  \<close>
\<close>

definition combined_text :: "agent_card \<Rightarrow> string list \<Rightarrow> string" where
  "combined_text ac tags =
     (let parts = text_parts ac tags
      in if parts \<noteq> [] then join '' | '' parts
         else (case card_name ac of None \<Rightarrow> ''unknown'' | Some n \<Rightarrow> n))"

definition embed_agent ::
  "(string \<Rightarrow> error + vector) \<Rightarrow> agent_card \<Rightarrow> string list \<Rightarrow> error + vector" where
  "embed_agent encode ac tags = encode (combined_text ac tags)"

subsection \<open>Python built-ins used by \<^verbatim>\<open>main.py\<close>\<close>

text \<open>Rounding of a real to the nearest integer, a tie going to the even neighbour, as
  Python's \<^verbatim>\<open>round\<close> does.\<close>

definition round_half_even :: "real \<Rightarrow> int" where
  "round_half_even y =
     (let f = \<lfloor>y\<rfloor>; d = y - of_int f
      in if d < 1 / 2 then f
         else if 1 / 2 < d then f + 1
         else if even f then f else f + 1)"

text \<open>\<^verbatim>\<open>round(x, ndigits)\<close>.\<close>

definition py_round :: "real \<Rightarrow> nat \<Rightarrow> real" where
  "py_round x ndigits = of_int (round_half_even (x * 10 ^ ndigits)) / 10 ^ ndigits"

text \<open>\<^verbatim>\<open>str.lower\<close> on the characters of a \<open>string\<close>: the letters A to Z (codes 65 to
  90) move to a to z, every other character stays.\<close>

definition char_lower :: "char \<Rightarrow> char" where
  "char_lower c =
     (let n = (of_char c :: nat)
      in if 65 \<le> n \<and> n \<le> 90 then char_of (n + 32) else c)"

definition lower :: "string \<Rightarrow> string" where
  "lower s = map char_lower s"

text \<open>\<^verbatim>\<open>hay.startswith(needle)\<close> and the substring test \<^verbatim>\<open>needle in hay\<close>.\<close>

fun startswith :: "string \<Rightarrow> string \<Rightarrow> bool" where
  "startswith hay [] = True"
| "startswith [] (n # ns) = False"
| "startswith (h # hs) (n # ns) = (h = n \<and> startswith hs ns)"

fun str_in :: "string \<Rightarrow> string \<Rightarrow> bool" where
  "str_in needle [] = (needle = [])"
| "str_in needle (h # hs) = (startswith (h # hs) needle \<or> str_in needle hs)"

subsection \<open>\<^verbatim>\<open>database.py\<close>: tables\<close>

text \<open>
  A row of \<^verbatim>\<open>registry_entries\<close> (the directory's table, of which the service reads
  \<^verbatim>\<open>agent_id\<close>, \<^verbatim>\<open>agent_card\<close>, \<^verbatim>\<open>tags\<close>, \<^verbatim>\<open>verified\<close> and
  \<^verbatim>\<open>registered_at\<close>) and a row of \<^verbatim>\<open>agent_embeddings\<close> as
  \<^verbatim>\<open>_setup_vector_table\<close> creates it. A table is the list of its rows; a query
  without \<^verbatim>\<open>ORDER BY\<close> promises no order of them.
\<close>

record registry_entry =
  re_agent_id :: string
  re_agent_card :: agent_card
  re_tags :: "string list"
  re_verified :: bool
  re_registered_at :: nat

record embedding_row =
  er_id :: nat
  er_agent_id :: string
  er_embedding :: vector
  er_text_content :: string
  er_created_at :: nat
  er_updated_at :: nat

record database =
  registry_entries :: "registry_entry list"
  agent_embeddings :: "embedding_row list"
  agent_embeddings_id_seq :: nat

text \<open>The column types \<^verbatim>\<open>VARCHAR(255)\<close> and \<^verbatim>\<open>vector(384)\<close>.\<close>

definition agent_id_max_length :: nat where
  "agent_id_max_length = 255"

definition embedding_dimension :: nat where
  "embedding_dimension = 384"

text \<open>
  \<^verbatim>\<open>
  INSERT INTO agent_embeddings (agent_id, embedding, text_content, updated_at)
  VALUES ($1, $2, $3, CURRENT_TIMESTAMP)
  ON CONFLICT (agent_id)
  DO UPDATE SET embedding = EXCLUDED.embedding,
                text_content = EXCLUDED.text_content,
                updated_at = CURRENT_TIMESTAMP
  \<close>
  The statement fails when a value does not fit its column or when the foreign key
  into \<^verbatim>\<open>registry_entries\<close> has no target. Otherwise a row with the same
  \<^verbatim>\<open>agent_id\<close> is updated in place, and only if there is none a new row is appended,
  with its \<^verbatim>\<open>id\<close> drawn from the serial sequence.
\<close>

definition store_embedding ::
  "nat \<Rightarrow> database \<Rightarrow> string \<Rightarrow> vector \<Rightarrow> string \<Rightarrow> error + database" where
  "store_embedding now db agent_id embedding text_content =
     (if length agent_id > agent_id_max_length \<or> length embedding \<noteq> embedding_dimension
      then Inl DataError
      else if agent_id \<notin> set (map re_agent_id (registry_entries db))
      then Inl ForeignKeyViolation
      else if agent_id \<in> set (map er_agent_id (agent_embeddings db))
      then Inr (db\<lparr>agent_embeddings :=
                     map (\<lambda>row. if er_agent_id row = agent_id
                                 then row\<lparr>er_embedding := embedding,
                                          er_text_content := text_content,
                                          er_updated_at := now\<rparr>
                                 else row)
                         (agent_embeddings db),
                   agent_embeddings_id_seq := agent_embeddings_id_seq db + 1\<rparr>)
      else Inr (db\<lparr>agent_embeddings :=
                     agent_embeddings db @
                       [\<lparr>er_id = agent_embeddings_id_seq db + 1,
                         er_agent_id = agent_id,
                         er_embedding = embedding,
                         er_text_content = text_content,
                         er_created_at = now,
                         er_updated_at = now\<rparr>],
                   agent_embeddings_id_seq := agent_embeddings_id_seq db + 1\<rparr>))"

text \<open>The dictionary \<^verbatim>\<open>agent_data\<close> that \<^verbatim>\<open>search_similar\<close> builds for a row.\<close>

record agent_data =
  ad_agent_id :: string
  ad_agent_card :: agent_card
  ad_tags :: "string list"
  ad_verified :: bool
  ad_matched_text :: string

text \<open>The rows of
  \<^verbatim>\<open>agent_embeddings e JOIN registry_entries r ON e.agent_id = r.agent_id\<close>, each with
  the selected column \<^verbatim>\<open>1 - (e.embedding <=> $1::vector) as similarity\<close>. SQL gives
  the join no order: the list stands for the rows, and the order in which the database
  returns them is settled by \<open>order_by_similarity_desc\<close> below.\<close>

definition joined_rows ::
  "(vector \<Rightarrow> vector \<Rightarrow> real) \<Rightarrow> database \<Rightarrow> vector \<Rightarrow> (agent_data \<times> real) list" where
  "joined_rows cosine_distance db query_embedding =
     concat (map (\<lambda>e.
       map (\<lambda>r. (\<lparr>ad_agent_id = re_agent_id r,
                   ad_agent_card = re_agent_card r,
                   ad_tags = re_tags r,
                   ad_verified = re_verified r,
                   ad_matched_text = er_text_content e\<rparr>,
                  1 - cosine_distance (er_embedding e) query_embedding))
           (filter (\<lambda>r. er_agent_id e = re_agent_id r) (registry_entries db)))
       (agent_embeddings db))"

text \<open>The array overlap operator \<^verbatim>\<open>&&\<close>: the two arrays share an element.\<close>

definition overlaps :: "string list \<Rightarrow> string list \<Rightarrow> bool" where
  "overlaps xs ys = list_ex (\<lambda>x. x \<in> set ys) xs"

text \<open>The \<^verbatim>\<open>WHERE\<close> clause that \<^verbatim>\<open>search_similar\<close> assembles: the score threshold,
  then \<^verbatim>\<open>r.verified = true\<close> if \<^verbatim>\<open>verified_only\<close>, then the tag overlap if
  \<^verbatim>\<open>tags_filter\<close> is a non-empty list.\<close>

definition where_clause ::
  "real \<Rightarrow> string list option \<Rightarrow> bool \<Rightarrow> agent_data \<times> real \<Rightarrow> bool" where
  "where_clause min_score tags_filter verified_only row =
     (snd row \<ge> min_score
      \<and> (if verified_only then ad_verified (fst row) else True)
      \<and> (case tags_filter of
           None \<Rightarrow> True
         | Some ts \<Rightarrow> if ts \<noteq> [] then overlaps (ad_tags (fst row)) ts else True))"

text \<open>\<^verbatim>\<open>ORDER BY similarity DESC\<close>. The similarity is the only sort key of the
  query. SQL leaves the order of rows with equal keys to the executor of the database,
  which is no part of the repository: the parameter \<open>tie_rank\<close> stands for its choice.
  Rows come in descending order of similarity and, among rows of equal similarity, in
  ascending order of the rank the executor gives them; every order that the database
  may return is the result for some \<open>tie_rank\<close>. The order of the list that
  \<open>joined_rows\<close> builds shows only between rows of equal similarity and equal
  rank.\<close>

definition order_by_similarity_desc ::
  "(agent_data \<Rightarrow> nat) \<Rightarrow> (agent_data \<times> real) list \<Rightarrow> (agent_data \<times> real) list" where
  "order_by_similarity_desc tie_rank rows =
     sort_key (\<lambda>row. - snd row) (sort_key (\<lambda>row. tie_rank (fst row)) rows)"

text \<open>\<^verbatim>\<open>search_similar\<close>: the query with its \<^verbatim>\<open>LIMIT\<close>, a negative limit being an
  error of the database.\<close>

definition search_similar ::
  "(vector \<Rightarrow> vector \<Rightarrow> real) \<Rightarrow> (agent_data \<Rightarrow> nat) \<Rightarrow> database \<Rightarrow> vector \<Rightarrow> int \<Rightarrow>
   real \<Rightarrow> string list option \<Rightarrow> bool \<Rightarrow> error + (agent_data \<times> real) list" where
  "search_similar cosine_distance tie_rank db query_embedding top_k min_score tags_filter
     verified_only =
     (if top_k < 0 then Inl InvalidRowCount
      else Inr (take (nat top_k)
                  (order_by_similarity_desc tie_rank
                     (filter (where_clause min_score tags_filter verified_only)
                        (joined_rows cosine_distance db query_embedding)))))"

text \<open>\<^verbatim>\<open>get_all_agents\<close>:
  \<^verbatim>\<open>SELECT agent_id, agent_card, tags FROM registry_entries ORDER BY registered_at\<close>.\<close>

definition get_all_agents :: "database \<Rightarrow> (string \<times> agent_card \<times> string list) list" where
  "get_all_agents db =
     map (\<lambda>r. (re_agent_id r, re_agent_card r, re_tags r))
         (sort_key re_registered_at (registry_entries db))"

subsection \<open>\<^verbatim>\<open>models.py\<close>: requests and responses\<close>

text \<open>The \<^verbatim>\<open>filters\<close> dictionary of a search request, read with
  \<^verbatim>\<open>filters.get("tags")\<close> and \<^verbatim>\<open>filters.get("verified", False)\<close>.\<close>

record search_filters =
  filter_tags :: "string list option"
  filter_verified :: bool

text \<open>The body of a search request as it arrives, a field that is not sent being
  \<open>None\<close>, and the \<^verbatim>\<open>SemanticSearchRequest\<close> that pydantic makes of it.\<close>

record search_body =
  body_query :: "string option"
  body_top_k :: "int option"
  body_min_score :: "real option"
  body_filters :: "search_filters option"

record semantic_search_request =
  query :: string
  top_k :: int
  min_score :: real
  filters :: "search_filters option"

text \<open>
  \<^verbatim>\<open>
  query: str = Field(...)
  top_k: int = Field(default=10, ge=1, le=100)
  min_score: float = Field(default=0.5, ge=0, le=1)
  filters: Optional[dict] = Field(default=None)
  \<close>
\<close>

definition parse_semantic_search_request :: "search_body \<Rightarrow> error + semantic_search_request" where
  "parse_semantic_search_request body =
     (case body_query body of
        None \<Rightarrow> Inl ValidationError
      | Some q \<Rightarrow>
          (let k = (case body_top_k body of None \<Rightarrow> 10 | Some k \<Rightarrow> k);
               m = (case body_min_score body of None \<Rightarrow> 1 / 2 | Some m \<Rightarrow> m)
           in if \<not> (1 \<le> k \<and> k \<le> 100) then Inl ValidationError
              else if \<not> (0 \<le> m \<and> m \<le> 1) then Inl ValidationError
              else Inr \<lparr>query = q, top_k = k, min_score = m, filters = body_filters body\<rparr>))"

text \<open>\<^verbatim>\<open>AgentCard(**agent_card_data)\<close>: \<^verbatim>\<open>name\<close> and \<^verbatim>\<open>endpoint\<close> are required, and
  so is the \<^verbatim>\<open>name\<close> of every \<^verbatim>\<open>Skill\<close>.\<close>

definition agent_card_valid :: "agent_card \<Rightarrow> bool" where
  "agent_card_valid ac =
     (card_name ac \<noteq> None \<and> card_endpoint ac \<noteq> None
      \<and> list_all (\<lambda>sk. skill_name sk \<noteq> None) (card_skills ac))"

record semantic_search_result =
  res_agent_id :: string
  res_agent_card :: agent_card
  res_tags :: "string list"
  res_verified :: bool
  similarity_score :: real
  matched_on :: string

record semantic_search_response =
  resp_query :: string
  results :: "semantic_search_result list"
  total :: nat

record index_all_response =
  indexed_count :: nat
  failed_count :: nat

subsection \<open>\<^verbatim>\<open>main.py\<close>: the search handler\<close>

text \<open>
  \<^verbatim>\<open>
  query_lower = request.query.lower()
  matched_on = "description"
  if query_lower in agent_card_data.get("name", "").lower():
      matched_on = "name"
  elif any(query_lower in s.get("name", "").lower() for s in agent_card_data.get("skills", [])):
      matched_on = "skills"
  elif any(query_lower in tag.lower() for tag in agent_data.get("tags", [])):
      matched_on = "tags"
  \<close>
\<close>

definition get_or_empty :: "string option \<Rightarrow> string" where
  "get_or_empty v = (case v of None \<Rightarrow> [] | Some s \<Rightarrow> s)"

definition determine_matched_on :: "string \<Rightarrow> agent_data \<Rightarrow> string" where
  "determine_matched_on q agent =
     (let query_lower = lower q;
          agent_card_data = ad_agent_card agent
      in if str_in query_lower (lower (get_or_empty (card_name agent_card_data)))
         then ''name''
         else if list_ex (\<lambda>s. str_in query_lower (lower (get_or_empty (skill_name s))))
                   (card_skills agent_card_data)
         then ''skills''
         else if list_ex (\<lambda>tag. str_in query_lower (lower tag)) (ad_tags agent)
         then ''tags''
         else ''description'')"

text \<open>One round of the formatting loop: the \<^verbatim>\<open>SemanticSearchResult\<close> of one raw
  result. Its construction validates the card and
  \<^verbatim>\<open>similarity_score: float = Field(..., ge=0, le=1)\<close>.\<close>

definition format_result :: "string \<Rightarrow> agent_data \<times> real \<Rightarrow> error + semantic_search_result" where
  "format_result q raw =
     (let agent = fst raw; similarity = snd raw;
          m = determine_matched_on q agent;
          score = py_round similarity 4
      in if \<not> agent_card_valid (ad_agent_card agent) then Inl ValidationError
         else if \<not> (0 \<le> score \<and> score \<le> 1) then Inl ValidationError
         else Inr \<lparr>res_agent_id = ad_agent_id agent,
                   res_agent_card = ad_agent_card agent,
                   res_tags = ad_tags agent,
                   res_verified = ad_verified agent,
                   similarity_score = score,
                   matched_on = m\<rparr>)"

text \<open>The loop \<^verbatim>\<open>for agent_data, similarity in raw_results\<close>; the first exception
  leaves it.\<close>

fun format_results ::
  "string \<Rightarrow> (agent_data \<times> real) list \<Rightarrow> error + semantic_search_result list" where
  "format_results q [] = Inr []"
| "format_results q (raw # raws) =
     (case format_result q raw of
        Inl e \<Rightarrow> Inl e
      | Inr r \<Rightarrow>
          (case format_results q raws of
             Inl e \<Rightarrow> Inl e
           | Inr rs \<Rightarrow> Inr (r # rs)))"

text \<open>
  \<^verbatim>\<open>
  tags_filter = None
  verified_only = False
  if request.filters:
      tags_filter = request.filters.get("tags")
      verified_only = request.filters.get("verified", False)
  \<close>
\<close>

definition tags_filter_of :: "search_filters option \<Rightarrow> string list option" where
  "tags_filter_of fs = (case fs of None \<Rightarrow> None | Some f \<Rightarrow> filter_tags f)"

definition verified_only_of :: "search_filters option \<Rightarrow> bool" where
  "verified_only_of fs = (case fs of None \<Rightarrow> False | Some f \<Rightarrow> filter_verified f)"

text \<open>The handler \<^verbatim>\<open>semantic_search\<close>. Every exception inside its \<^verbatim>\<open>try\<close> becomes
  \<^verbatim>\<open>HTTPException(status_code=500)\<close>.\<close>

definition semantic_search ::
  "(string \<Rightarrow> error + vector) \<Rightarrow> (vector \<Rightarrow> vector \<Rightarrow> real) \<Rightarrow> (agent_data \<Rightarrow> nat) \<Rightarrow>
   database \<Rightarrow> semantic_search_request \<Rightarrow> error + semantic_search_response" where
  "semantic_search encode cosine_distance tie_rank db request =
     (case encode (query request) of
        Inl e \<Rightarrow> Inl (HTTPException 500)
      | Inr query_embedding \<Rightarrow>
          (case search_similar cosine_distance tie_rank db query_embedding (top_k request)
                  (min_score request) (tags_filter_of (filters request))
                  (verified_only_of (filters request)) of
             Inl e \<Rightarrow> Inl (HTTPException 500)
           | Inr raw_results \<Rightarrow>
               (case format_results (query request) raw_results of
                  Inl e \<Rightarrow> Inl (HTTPException 500)
                | Inr rs \<Rightarrow>
                    Inr \<lparr>resp_query = query request, results = rs, total = length rs\<rparr>)))"

text \<open>The route \<^verbatim>\<open>POST /api/v1/semantic/search\<close>: the framework parses the body into
  a \<^verbatim>\<open>SemanticSearchRequest\<close> and calls the handler only if that succeeds.\<close>

definition semantic_search_route ::
  "(string \<Rightarrow> error + vector) \<Rightarrow> (vector \<Rightarrow> vector \<Rightarrow> real) \<Rightarrow> (agent_data \<Rightarrow> nat) \<Rightarrow>
   database \<Rightarrow> search_body \<Rightarrow> error + semantic_search_response" where
  "semantic_search_route encode cosine_distance tie_rank db body =
     (case parse_semantic_search_request body of
        Inl e \<Rightarrow> Inl e
      | Inr request \<Rightarrow> semantic_search encode cosine_distance tie_rank db request)"

subsection \<open>\<^verbatim>\<open>main.py\<close>: the indexing handlers\<close>

text \<open>
  The reference text stored beside the vector (the same lines in \<^verbatim>\<open>index_agent\<close>
  and in \<^verbatim>\<open>index_all_agents\<close>):
  \<^verbatim>\<open>
  text_parts = [f"Agent: {agent['agent_card'].get('name', '')}"]
  if desc := agent["agent_card"].get("description"):
      text_parts.append(desc)
  for skill in agent["agent_card"].get("skills", []):
      text_parts.append(f"Skill: {skill.get('name', '')}")
  if agent["tags"]:
      text_parts.append(f"Tags: {', '.join(agent['tags'])}")
  text_content = " | ".join(text_parts)
  \<close>
\<close>

definition text_content_of :: "agent_card \<Rightarrow> string list \<Rightarrow> string" where
  "text_content_of ac tags =
     join '' | ''
       ([''Agent: '' @ get_or_empty (card_name ac)]
        @ (if truthy (card_description ac) then [the (card_description ac)] else [])
        @ map (\<lambda>sk. ''Skill: '' @ get_or_empty (skill_name sk)) (card_skills ac)
        @ (if tags \<noteq> [] then [''Tags: '' @ join '', '' tags] else []))"

record index_agent_request =
  ia_agent_id :: string
  ia_agent_card :: agent_card
  ia_tags :: "string list"

text \<open>The handler \<^verbatim>\<open>index_agent\<close>: embed, compose the reference text, store. It
  answers with the dimension of the embedding.\<close>

definition index_agent ::
  "(string \<Rightarrow> error + vector) \<Rightarrow> nat \<Rightarrow> database \<Rightarrow> index_agent_request \<Rightarrow>
   error + (database \<times> nat)" where
  "index_agent encode now db request =
     (case embed_agent encode (ia_agent_card request) (ia_tags request) of
        Inl e \<Rightarrow> Inl (HTTPException 500)
      | Inr embedding \<Rightarrow>
          (case store_embedding now db (ia_agent_id request) embedding
                  (text_content_of (ia_agent_card request) (ia_tags request)) of
             Inl e \<Rightarrow> Inl (HTTPException 500)
           | Inr db' \<Rightarrow> Inr (db', length embedding)))"

text \<open>The body of the inner \<^verbatim>\<open>try\<close> of \<^verbatim>\<open>index_all_agents\<close> for one agent of the
  snapshot.\<close>

definition index_snapshot_entry ::
  "(string \<Rightarrow> error + vector) \<Rightarrow> nat \<Rightarrow> database \<Rightarrow> string \<times> agent_card \<times> string list \<Rightarrow>
   error + database" where
  "index_snapshot_entry encode now db agent =
     (case embed_agent encode (fst (snd agent)) (snd (snd agent)) of
        Inl e \<Rightarrow> Inl e
      | Inr embedding \<Rightarrow>
          store_embedding now db (fst agent) embedding
            (text_content_of (fst (snd agent)) (snd (snd agent))))"

text \<open>The loop \<^verbatim>\<open>for agent in agents\<close> with its two counters; the inner
  \<^verbatim>\<open>except Exception\<close> counts the failure and goes on.\<close>

fun index_all_loop ::
  "(string \<Rightarrow> error + vector) \<Rightarrow> nat \<Rightarrow> (string \<times> agent_card \<times> string list) list \<Rightarrow>
   database \<Rightarrow> nat \<Rightarrow> nat \<Rightarrow> database \<times> nat \<times> nat" where
  "index_all_loop encode now [] db indexed failed = (db, indexed, failed)"
| "index_all_loop encode now (agent # agents) db indexed failed =
     (case index_snapshot_entry encode now db agent of
        Inl e \<Rightarrow> index_all_loop encode now agents db indexed (failed + 1)
      | Inr db' \<Rightarrow> index_all_loop encode now agents db' (indexed + 1) failed)"

text \<open>The handler \<^verbatim>\<open>index_all_agents\<close>: the snapshot, the loop, the counts.\<close>

definition index_all_agents ::
  "(string \<Rightarrow> error + vector) \<Rightarrow> nat \<Rightarrow> database \<Rightarrow> error + (database \<times> index_all_response)" where
  "index_all_agents encode now db =
     (let agents = get_all_agents db;
          run = index_all_loop encode now agents db 0 0
      in Inr (fst run, \<lparr>indexed_count = fst (snd run), failed_count = snd (snd run)\<rparr>))"

subsection \<open>The composed text as the specification words it\<close>

text \<open>
  The specification's Agent Text Composer, written from its sentences and not from the
  code: the segments \<open>Agent\<close> (for a name that is not empty), \<open>Description\<close> (if
  present), one \<open>Skill\<close> segment per skill in listed order and \<open>Tags\<close> (if there are
  tags), joined with \<open>" | "\<close>; with no segment, the bare name, or the placeholder if
  the name is empty as well.
\<close>

definition spec_skill_segment :: "skill \<Rightarrow> string" where
  "spec_skill_segment sk =
     (case skill_description sk of
        None \<Rightarrow> ''Skill: '' @ get_or_empty (skill_name sk)
      | Some d \<Rightarrow>
          if d = [] then ''Skill: '' @ get_or_empty (skill_name sk)
          else ''Skill: '' @ get_or_empty (skill_name sk) @ '' - '' @ d)"

definition spec_segments :: "agent_card \<Rightarrow> string list \<Rightarrow> string list" where
  "spec_segments ac tags =
     (if get_or_empty (card_name ac) = [] then []
      else [''Agent: '' @ get_or_empty (card_name ac)])
     @ (if get_or_empty (card_description ac) = [] then []
        else [''Description: '' @ get_or_empty (card_description ac)])
     @ map spec_skill_segment (card_skills ac)
     @ (if tags = [] then [] else [''Tags: '' @ join '', '' tags])"

definition spec_compose :: "agent_card \<Rightarrow> string list \<Rightarrow> string" where
  "spec_compose ac tags =
     (if spec_segments ac tags \<noteq> [] then join '' | '' (spec_segments ac tags)
      else if get_or_empty (card_name ac) = [] then ''unknown''
      else get_or_empty (card_name ac))"

subsection \<open>Sample data\<close>

text \<open>A short vector filled with zeros up to the dimension of the column.\<close>

definition pad_embedding :: "real list \<Rightarrow> vector" where
  "pad_embedding xs = xs @ replicate (embedding_dimension - length xs) 0"

text \<open>An embedding model that fails on one text and sends every other text to the
  first unit vector.\<close>

definition sample_encode :: "string \<Rightarrow> error + vector" where
  "sample_encode text_in =
     (if text_in = ''Agent: broken'' then Inl EncodeError else Inr (pad_embedding [1, 0]))"

text \<open>The cosine distance of real vectors,
  \<open>1 - a \<bullet> b / sqrt (|a|\<^sup>2 |b|\<^sup>2)\<close>.\<close>

definition sample_cosine_distance :: "vector \<Rightarrow> vector \<Rightarrow> real" where
  "sample_cosine_distance a b =
     1 - sum_list (map (\<lambda>(x, y). x * y) (zip a b))
         / sqrt (sum_list (map (\<lambda>x. x * x) a) * sum_list (map (\<lambda>x. x * x) b))"

definition sample_card :: "string \<Rightarrow> string \<Rightarrow> agent_card" where
  "sample_card n sk =
     \<lparr>card_name = Some n, card_description = None, card_endpoint = Some ''http://agents'',
      card_skills = [\<lparr>skill_name = Some sk, skill_description = None\<rparr>]\<rparr>"

definition sample_registry :: "registry_entry list" where
  "sample_registry =
     [\<lparr>re_agent_id = ''agent-b'', re_agent_card = sample_card ''Polyglot'' ''translate'',
       re_tags = [''nlp''], re_verified = True, re_registered_at = 1\<rparr>,
      \<lparr>re_agent_id = ''agent-a'', re_agent_card = sample_card ''Summarizer'' ''summarize'',
       re_tags = [''nlp'', ''translate-helper''], re_verified = True, re_registered_at = 2\<rparr>,
      \<lparr>re_agent_id = ''agent-c'', re_agent_card = sample_card ''Translator'' ''convert'',
       re_tags = [], re_verified = False, re_registered_at = 3\<rparr>]"

definition sample_db :: database where
  "sample_db =
     \<lparr>registry_entries = sample_registry,
      agent_embeddings =
        [\<lparr>er_id = 1, er_agent_id = ''agent-b'', er_embedding = pad_embedding [5, 12],
          er_text_content = ''Agent: Polyglot | Skill: translate | Tags: nlp'',
          er_created_at = 1, er_updated_at = 1\<rparr>,
         \<lparr>er_id = 2, er_agent_id = ''agent-a'', er_embedding = pad_embedding [5, 12],
          er_text_content = ''Agent: Summarizer | Skill: summarize | Tags: nlp, translate-helper'',
          er_created_at = 2, er_updated_at = 2\<rparr>,
         \<lparr>er_id = 3, er_agent_id = ''agent-c'', er_embedding = pad_embedding [3, 4],
          er_text_content = ''Agent: Translator | Skill: convert'',
          er_created_at = 3, er_updated_at = 3\<rparr>],
      agent_embeddings_id_seq = 3\<rparr>"

text \<open>Two executors: one that ranks all rows alike, so that rows of equal similarity
  stay in the order of the join, and one that puts \<open>agent-a\<close> first.\<close>

definition sample_scan_rank :: "agent_data \<Rightarrow> nat" where
  "sample_scan_rank agent = 0"

definition sample_rank_a_first :: "agent_data \<Rightarrow> nat" where
  "sample_rank_a_first agent = (if ad_agent_id agent = ''agent-a'' then 0 else 1)"

text \<open>What \<^verbatim>\<open>search_similar\<close> reports of the three sample agents, and a search
  result as the handler builds it from such a report, a score and a label.\<close>

definition sample_agent_b :: agent_data where
  "sample_agent_b =
     \<lparr>ad_agent_id = ''agent-b'', ad_agent_card = sample_card ''Polyglot'' ''translate'',
      ad_tags = [''nlp''], ad_verified = True,
      ad_matched_text = ''Agent: Polyglot | Skill: translate | Tags: nlp''\<rparr>"

definition sample_agent_a :: agent_data where
  "sample_agent_a =
     \<lparr>ad_agent_id = ''agent-a'', ad_agent_card = sample_card ''Summarizer'' ''summarize'',
      ad_tags = [''nlp'', ''translate-helper''], ad_verified = True,
      ad_matched_text = ''Agent: Summarizer | Skill: summarize | Tags: nlp, translate-helper''\<rparr>"

definition sample_agent_c :: agent_data where
  "sample_agent_c =
     \<lparr>ad_agent_id = ''agent-c'', ad_agent_card = sample_card ''Translator'' ''convert'',
      ad_tags = [], ad_verified = False,
      ad_matched_text = ''Agent: Translator | Skill: convert''\<rparr>"

definition sample_hit :: "agent_data \<Rightarrow> real \<Rightarrow> string \<Rightarrow> semantic_search_result" where
  "sample_hit agent score label =
     \<lparr>res_agent_id = ad_agent_id agent, res_agent_card = ad_agent_card agent,
      res_tags = ad_tags agent, res_verified = ad_verified agent,
      similarity_score = score, matched_on = label\<rparr>"

text \<open>The same directory before anything is indexed, with one more agent whose text
  the sample model cannot embed.\<close>

definition sample_unindexed_db :: database where
  "sample_unindexed_db =
     \<lparr>registry_entries =
        sample_registry @
          [\<lparr>re_agent_id = ''agent-x'',
            re_agent_card = \<lparr>card_name = Some ''broken'', card_description = None,
                             card_endpoint = Some ''http://agents'', card_skills = []\<rparr>,
            re_tags = [], re_verified = False, re_registered_at = 4\<rparr>],
      agent_embeddings = [],
      agent_embeddings_id_seq = 0\<rparr>"

section \<open>Properties\<close>

subsection \<open>Cosine similarity\<close>

lemma sum_squares_nonneg: "0 \<le> sum_list (map (\<lambda>x. x * x) (v::real list))"
  by (induction v) auto

lemma dot_self:
  "sum_list (map (\<lambda>(x, y). x * y) (zip v v)) = sum_list (map (\<lambda>x. x * x) (v::real list))"
  by (induction v) auto

lemma dot_commute:
  "length a = length b \<Longrightarrow>
   sum_list (map (\<lambda>(x, y). x * y) (zip a b))
     = sum_list (map (\<lambda>(x, y). x * y) (zip b (a::real list)))"
  by (induction a b rule: list_induct2) (auto simp: mult.commute)

lemma np_dot_commute: "np_dot a b = np_dot b a"
  using dot_commute [of a b] by (auto simp: np_dot_def)

lemma np_dot_self: "np_dot v v = Inr (linalg_norm v * linalg_norm v)"
  by (simp add: np_dot_def linalg_norm_def dot_self sum_squares_nonneg)

lemma compute_similarity_commute: "compute_similarity v1 v2 = compute_similarity v2 v1"
  unfolding compute_similarity_def Let_def
  by (simp add: np_dot_commute [of v1 v2] mult.commute [of "linalg_norm v1" "linalg_norm v2"]
        disj_commute cong: sum.case_cong)

lemma compute_similarity_self:
  "linalg_norm v \<noteq> 0 \<Longrightarrow> compute_similarity v v = Inr 1"
  by (simp add: compute_similarity_def np_dot_self checked_div_def Let_def)

lemma compute_similarity_range:
  "compute_similarity v1 v2 = Inr s \<Longrightarrow> 0 \<le> s \<and> s \<le> 1"
  by (auto simp: compute_similarity_def checked_div_def Let_def split: if_splits sum.splits)

lemma compute_similarity_defined:
  "length v1 = length v2 \<Longrightarrow> \<exists>s. compute_similarity v1 v2 = Inr s"
  by (auto simp: compute_similarity_def checked_div_def np_dot_def Let_def
      split: if_splits sum.splits)

lemma sqrt_25: "sqrt 25 = 5"
proof -
  have "sqrt (5 * 5) = \<bar>5\<bar>" by (rule real_sqrt_abs2)
  then show ?thesis by simp
qed

lemma linalg_norm_3_4: "linalg_norm [3, 4] = 5"
  by (simp add: linalg_norm_def sqrt_25)

lemma linalg_norm_4_3: "linalg_norm [4, 3] = 5"
  by (simp add: linalg_norm_def sqrt_25)

text \<open>
  Claim C7. For vectors of one dimension whose norms are not zero, the similarity is
  symmetric in its arguments, the similarity of a vector with itself is 1, and the
  value returned lies between 0 and 1. Over the reals the second equation is exact.
\<close>

theorem compute_similarity_symmetric_unit_range:
  assumes "length v1 = length v2" and "linalg_norm v1 \<noteq> 0" and "linalg_norm v2 \<noteq> 0"
  shows "compute_similarity v1 v2 = compute_similarity v2 v1
       \<and> compute_similarity v1 v1 = Inr 1
       \<and> (\<exists>s. compute_similarity v1 v2 = Inr s \<and> 0 \<le> s \<and> s \<le> 1)"
  using assms compute_similarity_commute [of v1 v2] compute_similarity_self [of v1]
    compute_similarity_defined [of v1 v2] compute_similarity_range [of v1 v2]
  by blast

theorem compute_similarity_symmetric_unit_range_witness:
  "length [3, 4 :: real] = length [4, 3 :: real]
   \<and> linalg_norm [3, 4] \<noteq> 0 \<and> linalg_norm [4, 3] \<noteq> 0
   \<and> compute_similarity [3, 4] [4, 3] = compute_similarity [4, 3] [3, 4]
   \<and> compute_similarity [3, 4] [3, 4] = Inr 1
   \<and> (\<exists>s. compute_similarity [3, 4] [4, 3] = Inr s \<and> 0 \<le> s \<and> s \<le> 1)"
proof -
  have len: "length [3, 4 :: real] = length [4, 3 :: real]" by simp
  have n1: "linalg_norm [3, 4] \<noteq> 0" by (simp add: linalg_norm_3_4)
  have n2: "linalg_norm [4, 3] \<noteq> 0" by (simp add: linalg_norm_4_3)
  from compute_similarity_symmetric_unit_range [OF len n1 n2] len n1 n2
  show ?thesis by blast
qed

text \<open>
  Claim C10, as the code has it. The similarity never ends in a division by zero. If
  one of the two norms is zero the result is exactly 0; the quotient is taken only when
  both norms differ from zero, and then its divisor, the product of the norms, differs
  from zero as well. For two vectors of one dimension the function returns a number;
  for two vectors of different dimensions, neither of norm zero, \<^verbatim>\<open>np.dot\<close> raises
  and no number is returned.
\<close>

theorem compute_similarity_no_division_by_zero:
  "compute_similarity e1 e2 \<noteq> Inl DivisionByZero
   \<and> (linalg_norm e1 = 0 \<or> linalg_norm e2 = 0 \<longrightarrow> compute_similarity e1 e2 = Inr 0)
   \<and> (linalg_norm e1 \<noteq> 0 \<and> linalg_norm e2 \<noteq> 0 \<longrightarrow>
        linalg_norm e1 * linalg_norm e2 \<noteq> 0
        \<and> (\<forall>d. np_dot e1 e2 = Inr d \<longrightarrow>
              checked_div d (linalg_norm e1 * linalg_norm e2)
                = Inr (d / (linalg_norm e1 * linalg_norm e2))
              \<and> compute_similarity e1 e2
                = Inr (max 0 (min 1 (d / (linalg_norm e1 * linalg_norm e2))))))
   \<and> (length e1 = length e2 \<longrightarrow> (\<exists>s. compute_similarity e1 e2 = Inr s))
   \<and> (length e1 \<noteq> length e2 \<and> linalg_norm e1 \<noteq> 0 \<and> linalg_norm e2 \<noteq> 0 \<longrightarrow>
        compute_similarity e1 e2 = Inl ValueError)"
  by (auto simp: compute_similarity_def checked_div_def np_dot_def Let_def
      split: if_splits sum.splits)

theorem compute_similarity_no_division_by_zero_witness:
  "linalg_norm [0, 0] = 0 \<and> compute_similarity [0, 0] [4, 3] = Inr 0
   \<and> linalg_norm [3, 4] \<noteq> 0 \<and> linalg_norm [4, 3] \<noteq> 0
   \<and> length [3, 4 :: real] = length [4, 3 :: real]
   \<and> np_dot [3, 4] [4, 3] = Inr 24
   \<and> compute_similarity [3, 4] [4, 3] = Inr (24 / 25)
   \<and> length [3, 4 :: real] \<noteq> length [4, 3, 0 :: real] \<and> linalg_norm [4, 3, 0] \<noteq> 0
   \<and> compute_similarity [3, 4] [4, 3, 0] = Inl ValueError"
proof -
  have z: "linalg_norm [0, 0] = 0" by (simp add: linalg_norm_def)
  have d: "np_dot [3, 4] [4, 3] = Inr 24" by (simp add: np_dot_def)
  have n3: "linalg_norm [4, 3, 0] \<noteq> 0" by (simp add: linalg_norm_def)
  from compute_similarity_no_division_by_zero [of "[0, 0]" "[4, 3]"] z
  have "compute_similarity [0, 0] [4, 3] = Inr 0" by blast
  moreover from compute_similarity_no_division_by_zero [of "[3, 4]" "[4, 3]"] d
  have "compute_similarity [3, 4] [4, 3] = Inr (24 / 25)"
    by (simp add: linalg_norm_3_4 linalg_norm_4_3)
  moreover from compute_similarity_no_division_by_zero [of "[3, 4]" "[4, 3, 0]"] n3
  have "compute_similarity [3, 4] [4, 3, 0] = Inl ValueError"
    by (simp add: linalg_norm_3_4)
  ultimately show ?thesis
    using z d n3 by (simp add: linalg_norm_3_4 linalg_norm_4_3)
qed

text \<open>The claim as it is stated fails in its first part: the function is not total on
  all pairs of vectors. For two vectors of different dimensions, neither of norm
  zero, the guard does not return and \<^verbatim>\<open>np.dot\<close> raises.\<close>

theorem compute_similarity_not_total:
  "compute_similarity [1, 2] [1, 2, 3] = Inl ValueError"
  by (simp add: compute_similarity_def linalg_norm_def np_dot_def)

subsection \<open>The composed text\<close>

lemma skill_text_spec: "skill_text sk = spec_skill_segment sk"
  by (cases "skill_description sk")
     (auto simp: skill_text_def spec_skill_segment_def get_or_empty_def split: option.splits)

lemma truthy_get_or_empty: "truthy v \<longleftrightarrow> get_or_empty v \<noteq> []"
  by (cases v) (auto simp: get_or_empty_def)

lemma truthy_the: "truthy v \<Longrightarrow> the v = get_or_empty v"
  by (cases v) (auto simp: get_or_empty_def)

lemma text_parts_spec: "text_parts ac tags = spec_segments ac tags"
proof -
  have "map skill_text (card_skills ac) = map spec_skill_segment (card_skills ac)"
    by (simp add: skill_text_spec)
  then show ?thesis
    by (simp add: text_parts_def spec_segments_def truthy_get_or_empty truthy_the)
qed

text \<open>The code composes the specified text for every card but one kind: a card whose
  name is there and empty, with no other segment.\<close>

lemma combined_text_spec:
  assumes "\<not> (card_name ac = Some [] \<and> text_parts ac tags = [])"
  shows "combined_text ac tags = spec_compose ac tags"
proof (cases "text_parts ac tags = []")
  case True
  with assms have "card_name ac \<noteq> Some []" by simp
  moreover from True have "\<not> truthy (card_name ac)"
    by (auto simp: text_parts_def split: if_splits)
  ultimately have "card_name ac = None"
    by (cases "card_name ac") auto
  with True show ?thesis
    by (simp add: combined_text_def spec_compose_def text_parts_spec [symmetric]
          get_or_empty_def)
next
  case False
  then show ?thesis
    by (simp add: combined_text_def spec_compose_def text_parts_spec [symmetric])
qed

text \<open>
  Claim C3. The composed text is a function of the card and the tags, and its segments
  and their order are those of the specification (\<open>combined_text_spec\<close>). The
  fallback differs: for a card whose name is the empty string and that has no
  description, no skill and no tag, the code yields the empty text and the
  specification the placeholder.
\<close>

theorem combined_text_empty_name:
  "combined_text \<lparr>card_name = Some '''', card_description = None,
                   card_endpoint = Some ''http://agents'', card_skills = []\<rparr> [] = ''''
   \<and> spec_compose \<lparr>card_name = Some '''', card_description = None,
                    card_endpoint = Some ''http://agents'', card_skills = []\<rparr> [] = ''unknown''"
  by (simp add: combined_text_def text_parts_def spec_compose_def spec_segments_def
        get_or_empty_def)

subsection \<open>Rounding\<close>

lemma round_half_even_bounds:
  "of_int (round_half_even y) \<le> y + 1 / 2 \<and> y - 1 / 2 \<le> of_int (round_half_even y)"
  unfolding round_half_even_def Let_def by (auto; linarith)

lemma round_half_even_floor_le: "\<lfloor>y\<rfloor> \<le> round_half_even y"
  unfolding round_half_even_def Let_def by auto

lemma round_half_even_le_ceil: "round_half_even y \<le> \<lfloor>y\<rfloor> + 1"
  unfolding round_half_even_def Let_def by auto

lemma round_half_even_mono:
  assumes "x \<le> y"
  shows "round_half_even x \<le> round_half_even y"
proof (cases "\<lfloor>x\<rfloor> = \<lfloor>y\<rfloor>")
  case True
  with assms show ?thesis
    unfolding round_half_even_def Let_def by (auto; linarith)
next
  case False
  from assms have "\<lfloor>x\<rfloor> \<le> \<lfloor>y\<rfloor>" by (rule floor_mono)
  with False have "\<lfloor>x\<rfloor> + 1 \<le> \<lfloor>y\<rfloor>" by simp
  with round_half_even_le_ceil [of x] round_half_even_floor_le [of y]
  show ?thesis by linarith
qed

lemma py_round_mono: "x \<le> y \<Longrightarrow> py_round x n \<le> py_round y n"
proof -
  assume "x \<le> y"
  then have "x * 10 ^ n \<le> y * 10 ^ n" by simp
  then have "round_half_even (x * 10 ^ n) \<le> round_half_even (y * 10 ^ n)"
    by (rule round_half_even_mono)
  then show ?thesis
    by (simp add: py_round_def divide_right_mono)
qed

lemma py_round_close: "\<bar>py_round x n - x\<bar> \<le> 1 / (2 * 10 ^ n)"
proof -
  define p :: real where "p = 10 ^ n"
  define d where "d = of_int (round_half_even (x * p)) - x * p"
  have p: "0 < p" by (simp add: p_def)
  have d: "\<bar>d\<bar> \<le> 1 / 2"
    using round_half_even_bounds [of "x * p"] unfolding d_def by linarith
  have "py_round x n - x = d / p"
    using p by (simp add: py_round_def d_def p_def field_simps)
  then have "\<bar>py_round x n - x\<bar> = \<bar>d\<bar> / p"
    using p by (simp add: abs_divide)
  also have "\<dots> \<le> (1 / 2) / p"
    using d p by (intro divide_right_mono) simp_all
  also have "\<dots> = 1 / (2 * 10 ^ n)"
    by (simp add: p_def)
  finally show ?thesis .
qed

subsection \<open>Strings\<close>

lemma startswith_prefix: "startswith hay needle \<longleftrightarrow> prefix needle hay"
  by (induction hay needle rule: startswith.induct) auto

lemma str_in_sublist: "str_in needle hay \<longleftrightarrow> sublist needle hay"
  by (induction hay) (auto simp: startswith_prefix sublist_Cons_right)

subsection \<open>The formatting loop\<close>

lemma format_results_all2:
  "format_results q raws = Inr rs \<Longrightarrow> list_all2 (\<lambda>raw r. format_result q raw = Inr r) raws rs"
  by (induction raws arbitrary: rs) (auto split: sum.splits)

lemma format_result_fields:
  assumes "format_result q raw = Inr r"
  shows "res_agent_id r = ad_agent_id (fst raw)"
    and "similarity_score r = py_round (snd raw) 4"
    and "matched_on r = determine_matched_on q (fst raw)"
    and "0 \<le> similarity_score r" and "similarity_score r \<le> 1"
  using assms by (auto simp: format_result_def Let_def split: if_splits)

lemma format_results_length: "format_results q raws = Inr rs \<Longrightarrow> length rs = length raws"
  by (drule format_results_all2) (simp add: list_all2_lengthD)

lemma format_results_scores:
  assumes "format_results q raws = Inr rs"
  shows "map similarity_score rs = map (\<lambda>raw. py_round (snd raw) 4) raws"
proof -
  from assms have "list_all2 (\<lambda>raw r. format_result q raw = Inr r) raws rs"
    by (rule format_results_all2)
  then show ?thesis
    by (induction rule: list_all2_induct) (auto simp: format_result_fields)
qed

lemma format_results_agent_ids:
  assumes "format_results q raws = Inr rs"
  shows "map res_agent_id rs = map (\<lambda>raw. ad_agent_id (fst raw)) raws"
proof -
  from assms have "list_all2 (\<lambda>raw r. format_result q raw = Inr r) raws rs"
    by (rule format_results_all2)
  then show ?thesis
    by (induction rule: list_all2_induct) (auto simp: format_result_fields)
qed

lemma format_results_matched_on:
  assumes "format_results q raws = Inr rs"
  shows "map matched_on rs = map (\<lambda>raw. determine_matched_on q (fst raw)) raws"
proof -
  from assms have "list_all2 (\<lambda>raw r. format_result q raw = Inr r) raws rs"
    by (rule format_results_all2)
  then show ?thesis
    by (induction rule: list_all2_induct) (auto simp: format_result_fields)
qed

lemma format_results_source:
  assumes "format_results q raws = Inr rs" and "r \<in> set rs"
  shows "\<exists>raw \<in> set raws. format_result q raw = Inr r"
proof -
  from assms(1) have "list_all2 (\<lambda>raw r. format_result q raw = Inr r) raws rs"
    by (rule format_results_all2)
  then show ?thesis
    using assms(2) by (induction rule: list_all2_induct) auto
qed

lemma format_results_range:
  assumes "format_results q raws = Inr rs" and "r \<in> set rs"
  shows "0 \<le> similarity_score r \<and> similarity_score r \<le> 1
       \<and> (\<exists>raw \<in> set raws. similarity_score r = py_round (snd raw) 4)"
proof -
  from format_results_source [OF assms]
  obtain raw where raw: "raw \<in> set raws" "format_result q raw = Inr r" by blast
  from format_result_fields(2,4,5) [OF raw(2)] raw(1) show ?thesis by blast
qed

subsection \<open>The similarity query\<close>

lemma search_similar_Inr:
  assumes "search_similar cd tie db qe k m tf vo = Inr rows"
  shows "0 \<le> k"
    and "rows = take (nat k) (order_by_similarity_desc tie
                  (filter (where_clause m tf vo) (joined_rows cd db qe)))"
  using assms by (auto simp: search_similar_def split: if_splits)

lemma order_by_similarity_desc_sorted:
  "sorted_wrt (\<lambda>a b. snd b \<le> snd a) (order_by_similarity_desc tie rows)"
proof -
  have "sorted (map (\<lambda>row. - snd row)
          (sort_key (\<lambda>row. - snd row) (sort_key (\<lambda>row. tie (fst row)) rows)))"
    by (rule sorted_sort_key)
  then show ?thesis
    by (simp add: order_by_similarity_desc_def sorted_map)
qed

lemma sorted_wrt_take: "sorted_wrt P xs \<Longrightarrow> sorted_wrt P (take n xs)"
  by (metis append_take_drop_id sorted_wrt_append)

lemma search_similar_props:
  assumes "search_similar cd tie db qe k m tf vo = Inr rows"
  shows "int (length rows) \<le> k"
    and "\<forall>row \<in> set rows. m \<le> snd row"
    and "sorted_wrt (\<lambda>a b. snd b \<le> snd a) rows"
proof -
  note r = search_similar_Inr [OF assms]
  from r show "int (length rows) \<le> k" by simp
  have "set rows \<subseteq> set (filter (where_clause m tf vo) (joined_rows cd db qe))"
    using r(2) set_take_subset [of "nat k"] by (fastforce simp: order_by_similarity_desc_def)
  then show "\<forall>row \<in> set rows. m \<le> snd row"
    by (auto simp: where_clause_def)
  show "sorted_wrt (\<lambda>a b. snd b \<le> snd a) rows"
    unfolding r(2) by (intro sorted_wrt_take order_by_similarity_desc_sorted)
qed

lemma semantic_search_Inr:
  assumes "semantic_search encode cd tie db req = Inr resp"
  obtains qe rows where
    "encode (query req) = Inr qe"
    "search_similar cd tie db qe (top_k req) (min_score req) (tags_filter_of (filters req))
       (verified_only_of (filters req)) = Inr rows"
    "format_results (query req) rows = Inr (results resp)"
    "resp_query resp = query req" "total resp = length (results resp)"
  using assms by (auto simp: semantic_search_def split: sum.splits)

subsection \<open>The sample data evaluated\<close>

lemma sample_cosine_distance_pad:
  assumes "length xs = length ys"
  shows "sample_cosine_distance (pad_embedding xs) (pad_embedding ys)
         = sample_cosine_distance xs ys"
  using assms
  by (simp add: sample_cosine_distance_def pad_embedding_def sum_list_replicate)

lemma sqrt_169: "sqrt 169 = 13"
proof -
  have "sqrt (13 * 13) = \<bar>13\<bar>" by (rule real_sqrt_abs2)
  then show ?thesis by simp
qed

lemma sample_distance_5_12:
  "sample_cosine_distance (pad_embedding [5, 12]) (pad_embedding [1, 0]) = 8 / 13"
  by (simp add: sample_cosine_distance_pad) (simp add: sample_cosine_distance_def sqrt_169)

lemma sample_distance_3_4:
  "sample_cosine_distance (pad_embedding [3, 4]) (pad_embedding [1, 0]) = 2 / 5"
  by (simp add: sample_cosine_distance_pad) (simp add: sample_cosine_distance_def sqrt_25)

lemma sample_joined_rows:
  "joined_rows sample_cosine_distance sample_db (pad_embedding [1, 0]) =
     [(sample_agent_b, 5 / 13), (sample_agent_a, 5 / 13), (sample_agent_c, 3 / 5)]"
  by (simp add: joined_rows_def sample_db_def sample_registry_def sample_distance_5_12
        sample_distance_3_4 sample_agent_a_def sample_agent_b_def sample_agent_c_def)

lemma sample_search_similar_low:
  assumes "m \<le> 5 / 13"
  shows "search_similar sample_cosine_distance sample_scan_rank sample_db (pad_embedding [1, 0]) 10 m None False
         = Inr [(sample_agent_c, 3 / 5), (sample_agent_b, 5 / 13), (sample_agent_a, 5 / 13)]"
  using assms
  by (simp add: search_similar_def sample_joined_rows where_clause_def
        order_by_similarity_desc_def sample_scan_rank_def)

lemma sample_search_similar_half:
  "search_similar sample_cosine_distance sample_scan_rank sample_db (pad_embedding [1, 0]) 10 (1 / 2) None False
   = Inr [(sample_agent_c, 3 / 5)]"
  by (simp add: search_similar_def sample_joined_rows where_clause_def
        order_by_similarity_desc_def sample_scan_rank_def)

lemma py_round_5_13: "py_round (5 / 13) 4 = 3846 / 10000"
  by code_simp

lemma py_round_3_5: "py_round (3 / 5) 4 = 3 / 5"
  by code_simp

lemma sample_lower:
  "lower ''Translate'' = ''translate''"
  "lower ''Polyglot'' = ''polyglot''"
  "lower ''Summarizer'' = ''summarizer''"
  "lower ''Translator'' = ''translator''"
  "lower ''translate'' = ''translate''"
  "lower ''summarize'' = ''summarize''"
  "lower ''convert'' = ''convert''"
  "lower ''nlp'' = ''nlp''"
  "lower ''translate-helper'' = ''translate-helper''"
  "lower '''' = ''''"
  by code_simp+

lemma sample_matched_on:
  "determine_matched_on ''Translate'' sample_agent_c = ''description''"
  "determine_matched_on ''Translate'' sample_agent_b = ''skills''"
  "determine_matched_on ''Translate'' sample_agent_a = ''tags''"
  "determine_matched_on '''' sample_agent_c = ''name''"
  by (simp_all add: determine_matched_on_def sample_agent_a_def sample_agent_b_def
        sample_agent_c_def sample_card_def get_or_empty_def sample_lower)

lemma sample_format_result:
  "format_result q (sample_agent_c, 3 / 5)
     = Inr (sample_hit sample_agent_c (3 / 5) (determine_matched_on q sample_agent_c))"
  "format_result q (sample_agent_b, 5 / 13)
     = Inr (sample_hit sample_agent_b (3846 / 10000) (determine_matched_on q sample_agent_b))"
  "format_result q (sample_agent_a, 5 / 13)
     = Inr (sample_hit sample_agent_a (3846 / 10000) (determine_matched_on q sample_agent_a))"
  by (simp_all add: format_result_def Let_def sample_hit_def agent_card_valid_def
        sample_agent_a_def sample_agent_b_def sample_agent_c_def sample_card_def
        py_round_5_13 py_round_3_5)

lemma sample_search_low:
  assumes "m \<le> 5 / 13"
  shows "semantic_search sample_encode sample_cosine_distance sample_scan_rank sample_db
           \<lparr>query = ''Translate'', top_k = 10, min_score = m, filters = None\<rparr>
         = Inr \<lparr>resp_query = ''Translate'',
                results = [sample_hit sample_agent_c (3 / 5) ''description'',
                           sample_hit sample_agent_b (3846 / 10000) ''skills'',
                           sample_hit sample_agent_a (3846 / 10000) ''tags''],
                total = 3\<rparr>"
  using assms
  by (simp add: semantic_search_def sample_encode_def tags_filter_of_def verified_only_of_def
        sample_search_similar_low sample_format_result sample_matched_on)

subsection \<open>Threshold, limit and order of the results\<close>

text \<open>
  Claim C1, as the code has it. The store returns at most \<open>top_k\<close> rows, each with a
  similarity of at least \<open>min_score\<close>, in descending order of similarity. The handler
  reports each similarity rounded to four decimals; the reported scores are still in
  descending order and at most \<open>top_k\<close> many, and each of them is at least
  \<open>min_score\<close> rounded to four decimals, hence above \<open>min_score - 0.00005\<close>.
\<close>

theorem search_threshold_limit_order:
  "(search_similar cd tie db qe k m tf vo = Inr rows \<longrightarrow>
      int (length rows) \<le> k
      \<and> (\<forall>row \<in> set rows. m \<le> snd row)
      \<and> sorted_wrt (\<lambda>a b. snd b \<le> snd a) rows)
   \<and> (semantic_search encode cd tie db req = Inr resp \<longrightarrow>
      int (length (results resp)) \<le> top_k req
      \<and> (\<forall>r \<in> set (results resp).
            py_round (min_score req) 4 \<le> similarity_score r
            \<and> min_score req - 1 / 20000 \<le> similarity_score r)
      \<and> sorted_wrt (\<lambda>a b. b \<le> a) (map similarity_score (results resp)))"
proof (intro conjI impI)
  assume s: "search_similar cd tie db qe k m tf vo = Inr rows"
  from search_similar_props [OF s]
  show "int (length rows) \<le> k" and "\<forall>row \<in> set rows. m \<le> snd row"
    and "sorted_wrt (\<lambda>a b. snd b \<le> snd a) rows" by blast+
next
  assume h: "semantic_search encode cd tie db req = Inr resp"
  then obtain qe raws where
    s: "search_similar cd tie db qe (top_k req) (min_score req) (tags_filter_of (filters req))
          (verified_only_of (filters req)) = Inr raws"
    and f: "format_results (query req) raws = Inr (results resp)"
    by (rule semantic_search_Inr)
  note p = search_similar_props [OF s]
  from p(1) format_results_length [OF f]
  show "int (length (results resp)) \<le> top_k req" by simp
  show "\<forall>r \<in> set (results resp).
          py_round (min_score req) 4 \<le> similarity_score r
          \<and> min_score req - 1 / 20000 \<le> similarity_score r"
  proof
    fix r assume "r \<in> set (results resp)"
    from format_results_range [OF f this]
    obtain raw where raw: "raw \<in> set raws" "similarity_score r = py_round (snd raw) 4"
      by blast
    from p(2) raw(1) have le: "min_score req \<le> snd raw" by blast
    then have "py_round (min_score req) 4 \<le> py_round (snd raw) 4"
      by (rule py_round_mono)
    moreover have "\<bar>py_round (snd raw) 4 - snd raw\<bar> \<le> 1 / 20000"
      using py_round_close [of "snd raw" 4] by simp
    with le have "min_score req - 1 / 20000 \<le> py_round (snd raw) 4" by linarith
    ultimately show "py_round (min_score req) 4 \<le> similarity_score r
          \<and> min_score req - 1 / 20000 \<le> similarity_score r"
      by (simp add: raw(2))
  qed
  have "sorted_wrt (\<lambda>a b. py_round (snd b) 4 \<le> py_round (snd a) 4) raws"
    using p(3) by (rule sorted_wrt_mono_rel [rotated]) (simp add: py_round_mono)
  then show "sorted_wrt (\<lambda>a b. b \<le> a) (map similarity_score (results resp))"
    by (simp add: format_results_scores [OF f] sorted_wrt_map)
qed

theorem search_threshold_limit_order_witness:
  "search_similar sample_cosine_distance sample_scan_rank sample_db (pad_embedding [1, 0]) 10 (3 / 10) None False
     = Inr [(sample_agent_c, 3 / 5), (sample_agent_b, 5 / 13), (sample_agent_a, 5 / 13)]
   \<and> sorted_wrt (\<lambda>a b. snd b \<le> snd a)
        [(sample_agent_c, 3 / 5 :: real), (sample_agent_b, 5 / 13), (sample_agent_a, 5 / 13)]
   \<and> semantic_search sample_encode sample_cosine_distance sample_scan_rank sample_db
        \<lparr>query = ''Translate'', top_k = 10, min_score = 3 / 10, filters = None\<rparr>
     = Inr \<lparr>resp_query = ''Translate'',
            results = [sample_hit sample_agent_c (3 / 5) ''description'',
                       sample_hit sample_agent_b (3846 / 10000) ''skills'',
                       sample_hit sample_agent_a (3846 / 10000) ''tags''],
            total = 3\<rparr>
   \<and> sorted_wrt (\<lambda>a b. b \<le> a) [3 / 5, 3846 / 10000, 3846 / 10000 :: real]
   \<and> py_round (3 / 10) 4 \<le> 3846 / 10000"
proof -
  let ?rows = "[(sample_agent_c, 3 / 5 :: real), (sample_agent_b, 5 / 13), (sample_agent_a, 5 / 13)]"
  let ?req = "\<lparr>query = ''Translate'', top_k = 10, min_score = 3 / 10, filters = None\<rparr>"
  let ?rs = "[sample_hit sample_agent_c (3 / 5) ''description'',
              sample_hit sample_agent_b (3846 / 10000) ''skills'',
              sample_hit sample_agent_a (3846 / 10000) ''tags'']"
  let ?resp = "\<lparr>resp_query = ''Translate'', results = ?rs, total = 3\<rparr>"
  have store: "search_similar sample_cosine_distance sample_scan_rank sample_db (pad_embedding [1, 0]) 10
                 (3 / 10) None False = Inr ?rows"
    by (simp add: sample_search_similar_low)
  have run: "semantic_search sample_encode sample_cosine_distance sample_scan_rank sample_db ?req = Inr ?resp"
    by (simp add: sample_search_low)
  from search_threshold_limit_order
         [of sample_cosine_distance sample_scan_rank sample_db "pad_embedding [1, 0]" 10 "3 / 10" None False
             ?rows sample_encode ?req ?resp] store run
  have "sorted_wrt (\<lambda>a b. snd b \<le> snd a) ?rows"
    and "sorted_wrt (\<lambda>a b. b \<le> a) (map similarity_score ?rs)"
    and "\<forall>r \<in> set ?rs. py_round (3 / 10) 4 \<le> similarity_score r"
    by simp_all
  with store run show ?thesis by (simp add: sample_hit_def)
qed

text \<open>The claim as it is stated fails for the reported score: with
  \<open>min_score = 0.38461\<close> two agents of similarity \<open>5/13 = 0.384615...\<close> pass the
  threshold of the query and are reported with the score \<open>0.3846\<close>, which is below
  the requested minimum.\<close>

theorem rounded_score_below_min_score:
  "semantic_search_route sample_encode sample_cosine_distance sample_scan_rank sample_db
     \<lparr>body_query = Some ''Translate'', body_top_k = Some 10,
      body_min_score = Some (38461 / 100000), body_filters = None\<rparr>
   = Inr \<lparr>resp_query = ''Translate'',
          results = [sample_hit sample_agent_c (3 / 5) ''description'',
                     sample_hit sample_agent_b (3846 / 10000) ''skills'',
                     sample_hit sample_agent_a (3846 / 10000) ''tags''],
          total = 3\<rparr>
   \<and> similarity_score (sample_hit sample_agent_b (3846 / 10000) ''skills'') < 38461 / 100000"
  by (simp add: semantic_search_route_def parse_semantic_search_request_def
        sample_search_low sample_hit_def)

subsection \<open>Candidates of equal similarity\<close>

lemma insort_key_keeps_tie_order:
  assumes "sorted_wrt (\<lambda>a b. f a = f b \<longrightarrow> g a \<le> g b) ys"
      and "\<forall>y \<in> set ys. g x \<le> g y"
  shows "sorted_wrt (\<lambda>a b. f a = f b \<longrightarrow> g a \<le> g b) (insort_key f x ys)"
  using assms
proof (induction ys)
  case Nil
  then show ?case by simp
next
  case (Cons y ys)
  show ?case
  proof (cases "f x \<le> f y")
    case True
    with Cons.prems show ?thesis by simp
  next
    case False
    then have "f y \<noteq> f x" by auto
    with False Cons show ?thesis
      by (auto simp: set_insort_key)
  qed
qed

lemma sort_key_keeps_tie_order:
  fixes g :: "'a \<Rightarrow> nat"
  assumes "sorted (map g xs)"
  shows "sorted_wrt (\<lambda>a b. f a = f b \<longrightarrow> g a \<le> g b) (sort_key f xs)"
  using assms
proof (induction xs)
  case Nil
  then show ?case by simp
next
  case (Cons x xs)
  then have "sorted_wrt (\<lambda>a b. f a = f b \<longrightarrow> g a \<le> g b) (sort_key f xs)"
    and "\<forall>y \<in> set (sort_key f xs). g x \<le> g y"
    by simp_all
  then show ?case
    by (simp add: insort_key_keeps_tie_order)
qed

lemma order_by_similarity_desc_ties:
  "sorted_wrt (\<lambda>a b. snd a = snd b \<longrightarrow> tie (fst a) \<le> tie (fst b))
     (order_by_similarity_desc tie rows)"
proof -
  have "sorted (map (\<lambda>row. tie (fst row)) (sort_key (\<lambda>row. tie (fst row)) rows))"
    by (rule sorted_sort_key)
  from sort_key_keeps_tie_order [OF this, of "\<lambda>row. - snd row"]
  show ?thesis by (simp add: order_by_similarity_desc_def)
qed

lemma order_by_similarity_desc_set:
  "set (order_by_similarity_desc tie rows) = set rows"
  by (simp add: order_by_similarity_desc_def)

lemma tie_order_is_open:
  assumes "snd x = snd y" and "fst x \<noteq> fst y"
  shows "\<exists>tie. sorted_wrt (\<lambda>a b. \<not> (a = y \<and> b = x)) (order_by_similarity_desc tie rows)"
proof -
  let ?tie = "\<lambda>agent. if agent = fst x then 0 else 1 :: nat"
  have "sorted_wrt (\<lambda>a b. snd a = snd b \<longrightarrow> ?tie (fst a) \<le> ?tie (fst b))
          (order_by_similarity_desc ?tie rows)"
    by (rule order_by_similarity_desc_ties)
  then have "sorted_wrt (\<lambda>a b. \<not> (a = y \<and> b = x)) (order_by_similarity_desc ?tie rows)"
  proof (rule sorted_wrt_mono_rel [rotated])
    fix a b :: "agent_data \<times> real"
    assume "snd a = snd b \<longrightarrow> ?tie (fst a) \<le> ?tie (fst b)"
    with assms show "\<not> (a = y \<and> b = x)" by auto
  qed
  then show ?thesis by blast
qed

text \<open>
  Claim C5, as the code has it. The query orders by \<^verbatim>\<open>similarity DESC\<close> and by
  nothing else: whatever the executor does with rows of equal similarity, the rows
  come in descending order of similarity, and among rows of equal similarity in the
  order of the executor, in which the \<^verbatim>\<open>agent_id\<close> takes no part. That order is
  open: of two candidates of equal similarity either one can come first.
\<close>

theorem search_similar_order_of_ties:
  "(search_similar cd tie db qe k m tf vo = Inr rows \<longrightarrow>
      rows = take (nat k) (order_by_similarity_desc tie
               (filter (where_clause m tf vo) (joined_rows cd db qe)))
      \<and> sorted_wrt (\<lambda>a b. snd b \<le> snd a) rows
      \<and> sorted_wrt (\<lambda>a b. snd a = snd b \<longrightarrow> tie (fst a) \<le> tie (fst b)) rows)
   \<and> (x \<in> set cands \<and> y \<in> set cands \<and> snd x = snd y \<and> fst x \<noteq> fst y \<longrightarrow>
      (\<exists>tie1. set (order_by_similarity_desc tie1 cands) = set cands
          \<and> sorted_wrt (\<lambda>a b. \<not> (a = y \<and> b = x)) (order_by_similarity_desc tie1 cands))
      \<and> (\<exists>tie2. set (order_by_similarity_desc tie2 cands) = set cands
          \<and> sorted_wrt (\<lambda>a b. \<not> (a = x \<and> b = y)) (order_by_similarity_desc tie2 cands)))"
proof (intro conjI impI)
  assume s: "search_similar cd tie db qe k m tf vo = Inr rows"
  from search_similar_Inr(2) [OF s]
  show r: "rows = take (nat k) (order_by_similarity_desc tie
               (filter (where_clause m tf vo) (joined_rows cd db qe)))" .
  from search_similar_props(3) [OF s]
  show "sorted_wrt (\<lambda>a b. snd b \<le> snd a) rows" .
  show "sorted_wrt (\<lambda>a b. snd a = snd b \<longrightarrow> tie (fst a) \<le> tie (fst b)) rows"
    unfolding r by (intro sorted_wrt_take order_by_similarity_desc_ties)
next
  assume h: "x \<in> set cands \<and> y \<in> set cands \<and> snd x = snd y \<and> fst x \<noteq> fst y"
  then have xy: "snd x = snd y" "fst x \<noteq> fst y" and yx: "snd y = snd x" "fst y \<noteq> fst x"
    by auto
  from tie_order_is_open [OF xy, of cands] obtain tie1 where
    "sorted_wrt (\<lambda>a b. \<not> (a = y \<and> b = x)) (order_by_similarity_desc tie1 cands)" ..
  then show "\<exists>tie1. set (order_by_similarity_desc tie1 cands) = set cands
          \<and> sorted_wrt (\<lambda>a b. \<not> (a = y \<and> b = x)) (order_by_similarity_desc tie1 cands)"
    using order_by_similarity_desc_set [of tie1 cands] by blast
  from tie_order_is_open [OF yx, of cands] obtain tie2 where
    "sorted_wrt (\<lambda>a b. \<not> (a = x \<and> b = y)) (order_by_similarity_desc tie2 cands)" ..
  then show "\<exists>tie2. set (order_by_similarity_desc tie2 cands) = set cands
          \<and> sorted_wrt (\<lambda>a b. \<not> (a = x \<and> b = y)) (order_by_similarity_desc tie2 cands)"
    using order_by_similarity_desc_set [of tie2 cands] by blast
qed

lemma sample_search_similar_a_first:
  "search_similar sample_cosine_distance sample_rank_a_first sample_db (pad_embedding [1, 0])
     10 (3 / 10) None False
   = Inr [(sample_agent_c, 3 / 5), (sample_agent_a, 5 / 13), (sample_agent_b, 5 / 13)]"
  by (simp add: search_similar_def sample_joined_rows where_clause_def
        order_by_similarity_desc_def sample_rank_a_first_def
        sample_agent_a_def sample_agent_b_def sample_agent_c_def)

theorem search_similar_order_of_ties_witness:
  "search_similar sample_cosine_distance sample_scan_rank sample_db (pad_embedding [1, 0])
     10 (3 / 10) None False
     = Inr [(sample_agent_c, 3 / 5), (sample_agent_b, 5 / 13), (sample_agent_a, 5 / 13)]
   \<and> sorted_wrt (\<lambda>a b. snd b \<le> snd a)
        [(sample_agent_c, 3 / 5 :: real), (sample_agent_b, 5 / 13), (sample_agent_a, 5 / 13)]
   \<and> search_similar sample_cosine_distance sample_rank_a_first sample_db (pad_embedding [1, 0])
     10 (3 / 10) None False
     = Inr [(sample_agent_c, 3 / 5), (sample_agent_a, 5 / 13), (sample_agent_b, 5 / 13)]
   \<and> sorted_wrt (\<lambda>a b. snd b \<le> snd a)
        [(sample_agent_c, 3 / 5 :: real), (sample_agent_a, 5 / 13), (sample_agent_b, 5 / 13)]
   \<and> (sample_agent_b, 5 / 13 :: real) \<in> set (joined_rows sample_cosine_distance sample_db
                                              (pad_embedding [1, 0]))
   \<and> (sample_agent_a, 5 / 13 :: real) \<in> set (joined_rows sample_cosine_distance sample_db
                                              (pad_embedding [1, 0]))
   \<and> sample_agent_b \<noteq> sample_agent_a
   \<and> (\<exists>tie1. sorted_wrt (\<lambda>a b. \<not> (a = (sample_agent_a, 5 / 13) \<and> b = (sample_agent_b, 5 / 13)))
         (order_by_similarity_desc tie1
            (joined_rows sample_cosine_distance sample_db (pad_embedding [1, 0]))))
   \<and> (\<exists>tie2. sorted_wrt (\<lambda>a b. \<not> (a = (sample_agent_b, 5 / 13) \<and> b = (sample_agent_a, 5 / 13)))
         (order_by_similarity_desc tie2
            (joined_rows sample_cosine_distance sample_db (pad_embedding [1, 0]))))"
proof -
  let ?scan = "[(sample_agent_c, 3 / 5 :: real), (sample_agent_b, 5 / 13), (sample_agent_a, 5 / 13)]"
  let ?afirst = "[(sample_agent_c, 3 / 5 :: real), (sample_agent_a, 5 / 13), (sample_agent_b, 5 / 13)]"
  let ?x = "(sample_agent_b, 5 / 13 :: real)"
  let ?y = "(sample_agent_a, 5 / 13 :: real)"
  let ?cands = "joined_rows sample_cosine_distance sample_db (pad_embedding [1, 0])"
  have store1: "search_similar sample_cosine_distance sample_scan_rank sample_db
                  (pad_embedding [1, 0]) 10 (3 / 10) None False = Inr ?scan"
    by (simp add: sample_search_similar_low)
  have store2: "search_similar sample_cosine_distance sample_rank_a_first sample_db
                  (pad_embedding [1, 0]) 10 (3 / 10) None False = Inr ?afirst"
    by (rule sample_search_similar_a_first)
  have mem: "?x \<in> set ?cands" "?y \<in> set ?cands"
    by (simp_all add: sample_joined_rows)
  have ne: "sample_agent_b \<noteq> sample_agent_a"
    by (simp add: sample_agent_a_def sample_agent_b_def)
  have hyp: "?x \<in> set ?cands \<and> ?y \<in> set ?cands \<and> snd ?x = snd ?y \<and> fst ?x \<noteq> fst ?y"
    using mem ne by simp
  note scan = search_similar_order_of_ties
         [of sample_cosine_distance sample_scan_rank sample_db "pad_embedding [1, 0]" 10
             "3 / 10" None False ?scan ?x ?cands ?y]
  note afirst = search_similar_order_of_ties
         [of sample_cosine_distance sample_rank_a_first sample_db "pad_embedding [1, 0]" 10
             "3 / 10" None False ?afirst ?x ?cands ?y]
  from mp [OF conjunct1 [OF scan] store1]
  have s1: "sorted_wrt (\<lambda>a b. snd b \<le> snd a) ?scan" by (rule conjunct1 [OF conjunct2])
  from mp [OF conjunct1 [OF afirst] store2]
  have s2: "sorted_wrt (\<lambda>a b. snd b \<le> snd a) ?afirst" by (rule conjunct1 [OF conjunct2])
  from mp [OF conjunct2 [OF scan] hyp]
  have open1: "\<exists>tie1. sorted_wrt (\<lambda>a b. \<not> (a = ?y \<and> b = ?x))
                  (order_by_similarity_desc tie1 ?cands)"
    and open2: "\<exists>tie2. sorted_wrt (\<lambda>a b. \<not> (a = ?x \<and> b = ?y))
                  (order_by_similarity_desc tie2 ?cands)"
    by blast+
  from store1 s1 store2 s2 mem ne open1 open2 show ?thesis
    by (intro conjI)
qed

text \<open>The claim as it is stated fails: \<open>agent-b\<close> and \<open>agent-a\<close> have the same
  similarity, and with an executor that leaves rows of equal similarity in the order
  of the join, in which the row of \<open>agent-b\<close> comes first, \<open>agent-b\<close> is returned
  before \<open>agent-a\<close>.\<close>

theorem ties_not_in_agent_id_order:
  "search_similar sample_cosine_distance sample_scan_rank sample_db (pad_embedding [1, 0])
     10 (3 / 10) None False
     = Inr [(sample_agent_c, 3 / 5), (sample_agent_b, 5 / 13), (sample_agent_a, 5 / 13)]
   \<and> ad_agent_id sample_agent_b = ''agent-b''
   \<and> ad_agent_id sample_agent_a = ''agent-a''
   \<and> \<not> ''agent-b'' \<le> ''agent-a''"
  by (simp add: sample_search_similar_low sample_agent_a_def sample_agent_b_def)

subsection \<open>Validation of the search request\<close>

text \<open>
  Claim C6, as the code has it. A request whose \<open>top_k\<close> lies outside 1 to 100 or
  whose \<open>min_score\<close> lies outside 0 to 1 is rejected with a validation error, whatever
  the embedding model and the store are: neither is consulted. A request with valid
  numbers and any query text, the empty one included, reaches the handler.
\<close>

theorem search_request_validation:
  assumes "body_query body = Some q"
      and "body_top_k body = Some k"
      and "body_min_score body = Some m"
  shows "(k < 1 \<or> 100 < k \<or> m < 0 \<or> 1 < m \<longrightarrow>
            semantic_search_route encode cd tie db body = Inl ValidationError)
       \<and> (1 \<le> k \<and> k \<le> 100 \<and> 0 \<le> m \<and> m \<le> 1 \<longrightarrow>
            semantic_search_route encode cd tie db body
              = semantic_search encode cd tie db
                  \<lparr>query = q, top_k = k, min_score = m, filters = body_filters body\<rparr>)"
  using assms
  by (auto simp: semantic_search_route_def parse_semantic_search_request_def)

theorem search_request_validation_witness:
  "semantic_search_route sample_encode sample_cosine_distance sample_scan_rank sample_db
     \<lparr>body_query = Some ''Translate'', body_top_k = Some 0,
      body_min_score = Some (1 / 2), body_filters = None\<rparr> = Inl ValidationError
   \<and> semantic_search_route sample_encode sample_cosine_distance sample_scan_rank sample_db
     \<lparr>body_query = Some ''Translate'', body_top_k = Some 10,
      body_min_score = Some (3 / 2), body_filters = None\<rparr> = Inl ValidationError
   \<and> semantic_search_route sample_encode sample_cosine_distance sample_scan_rank sample_db
     \<lparr>body_query = Some ''Translate'', body_top_k = Some 10,
      body_min_score = Some (3 / 10), body_filters = None\<rparr>
     = semantic_search sample_encode sample_cosine_distance sample_scan_rank sample_db
         \<lparr>query = ''Translate'', top_k = 10, min_score = 3 / 10, filters = None\<rparr>"
proof -
  let ?b1 = "\<lparr>body_query = Some ''Translate'', body_top_k = Some 0,
      body_min_score = Some (1 / 2), body_filters = None\<rparr>"
  let ?b2 = "\<lparr>body_query = Some ''Translate'', body_top_k = Some 10,
      body_min_score = Some (3 / 2), body_filters = None\<rparr>"
  let ?b3 = "\<lparr>body_query = Some ''Translate'', body_top_k = Some 10,
      body_min_score = Some (3 / 10), body_filters = None\<rparr>"
  have "semantic_search_route sample_encode sample_cosine_distance sample_scan_rank sample_db ?b1
          = Inl ValidationError"
    using search_request_validation
            [of ?b1 "''Translate''" 0 "1 / 2" sample_encode sample_cosine_distance sample_scan_rank sample_db]
    by simp
  moreover have "semantic_search_route sample_encode sample_cosine_distance sample_scan_rank sample_db ?b2
          = Inl ValidationError"
    using search_request_validation
            [of ?b2 "''Translate''" 10 "3 / 2" sample_encode sample_cosine_distance sample_scan_rank sample_db]
    by simp
  moreover have "semantic_search_route sample_encode sample_cosine_distance sample_scan_rank sample_db ?b3
          = semantic_search sample_encode sample_cosine_distance sample_scan_rank sample_db
              \<lparr>query = ''Translate'', top_k = 10, min_score = 3 / 10, filters = None\<rparr>"
    using search_request_validation
            [of ?b3 "''Translate''" 10 "3 / 10" sample_encode sample_cosine_distance sample_scan_rank sample_db]
    by simp
  ultimately show ?thesis by blast
qed

text \<open>The claim as it is stated fails for the empty query: the request is parsed, the
  empty text is embedded, the store is queried and a result comes back.\<close>

theorem empty_query_is_accepted:
  "parse_semantic_search_request
     \<lparr>body_query = Some '''', body_top_k = Some 10, body_min_score = Some (1 / 2),
      body_filters = None\<rparr>
     = Inr \<lparr>query = '''', top_k = 10, min_score = 1 / 2, filters = None\<rparr>
   \<and> semantic_search_route sample_encode sample_cosine_distance sample_scan_rank sample_db
       \<lparr>body_query = Some '''', body_top_k = Some 10, body_min_score = Some (1 / 2),
        body_filters = None\<rparr>
     = Inr \<lparr>resp_query = '''',
            results = [sample_hit sample_agent_c (3 / 5) ''name''],
            total = 1\<rparr>"
  by (simp add: semantic_search_route_def parse_semantic_search_request_def
        semantic_search_def sample_encode_def tags_filter_of_def verified_only_of_def
        sample_search_similar_half sample_format_result sample_matched_on)

subsection \<open>Range and precision of the reported score\<close>

lemma py_round_4_grid_unit:
  assumes "0 \<le> py_round x 4" and "py_round x 4 \<le> 1"
  shows "\<exists>k::int. 0 \<le> k \<and> k \<le> 10000 \<and> py_round x 4 = of_int k / 10000"
proof -
  define k where "k = round_half_even (x * 10 ^ 4)"
  have eq: "py_round x 4 = of_int k / 10000"
    by (simp add: py_round_def k_def)
  with assms have "0 \<le> (of_int k :: real)" and "(of_int k :: real) \<le> 10000"
    by simp_all
  then have "0 \<le> k" and "k \<le> 10000"
    by linarith+
  with eq show ?thesis by blast
qed

text \<open>
  Claim C8. Every score of a successful search lies between 0 and 1 and is a multiple
  of \<open>0.0001\<close>: it is the similarity of the store rounded to four decimals, and a
  result whose rounded score left the unit interval would fail the validation of
  \<^verbatim>\<open>SemanticSearchResult\<close> and with it the search.
\<close>

theorem similarity_score_unit_interval_four_decimals:
  assumes "semantic_search encode cd tie db req = Inr resp"
      and "r \<in> set (results resp)"
  shows "0 \<le> similarity_score r \<and> similarity_score r \<le> 1
       \<and> (\<exists>k::int. 0 \<le> k \<and> k \<le> 10000 \<and> similarity_score r = of_int k / 10000)"
proof -
  from assms(1) obtain qe raws where
    f: "format_results (query req) raws = Inr (results resp)"
    by (rule semantic_search_Inr)
  from format_results_range [OF f assms(2)]
  have range: "0 \<le> similarity_score r" "similarity_score r \<le> 1"
    and "\<exists>raw \<in> set raws. similarity_score r = py_round (snd raw) 4"
    by simp_all
  then obtain raw where raw: "similarity_score r = py_round (snd raw) 4"
    by auto
  from range py_round_4_grid_unit [of "snd raw"] show ?thesis
    by (simp add: raw)
qed

theorem similarity_score_unit_interval_four_decimals_witness:
  "semantic_search sample_encode sample_cosine_distance sample_scan_rank sample_db
     \<lparr>query = ''Translate'', top_k = 10, min_score = 3 / 10, filters = None\<rparr>
     = Inr \<lparr>resp_query = ''Translate'',
            results = [sample_hit sample_agent_c (3 / 5) ''description'',
                       sample_hit sample_agent_b (3846 / 10000) ''skills'',
                       sample_hit sample_agent_a (3846 / 10000) ''tags''],
            total = 3\<rparr>
   \<and> 0 \<le> similarity_score (sample_hit sample_agent_b (3846 / 10000) ''skills'')
   \<and> similarity_score (sample_hit sample_agent_b (3846 / 10000) ''skills'') \<le> 1
   \<and> similarity_score (sample_hit sample_agent_b (3846 / 10000) ''skills'')
       = of_int 3846 / 10000"
proof -
  let ?req = "\<lparr>query = ''Translate'', top_k = 10, min_score = 3 / 10, filters = None\<rparr>"
  let ?r = "sample_hit sample_agent_b (3846 / 10000) ''skills''"
  let ?resp = "\<lparr>resp_query = ''Translate'',
            results = [sample_hit sample_agent_c (3 / 5) ''description'', ?r,
                       sample_hit sample_agent_a (3846 / 10000) ''tags''],
            total = 3\<rparr>"
  have run: "semantic_search sample_encode sample_cosine_distance sample_scan_rank sample_db ?req = Inr ?resp"
    by (simp add: sample_search_low)
  have mem: "?r \<in> set (results ?resp)" by simp
  from similarity_score_unit_interval_four_decimals [OF run mem]
  have "0 \<le> similarity_score ?r \<and> similarity_score ?r \<le> 1" by blast
  with run show ?thesis by (simp add: sample_hit_def)
qed

subsection \<open>The label \<open>matched_on\<close>\<close>

text \<open>
  Claim C9. The label is found by testing whether the lower-cased query is a
  contiguous part of the lower-cased name, then of the lower-cased name of some skill,
  then of some lower-cased tag, the first success deciding, and is \<open>description\<close>
  if none succeeds. The results of a successful search are, in the same order, the
  rows of the store with their similarity rounded and this label added: the label has
  no influence on which agents are returned or on their scores.
\<close>

theorem matched_on_priority_and_independence:
  "determine_matched_on q agent =
     (if sublist (lower q) (lower (get_or_empty (card_name (ad_agent_card agent))))
      then ''name''
      else if \<exists>s \<in> set (card_skills (ad_agent_card agent)).
                 sublist (lower q) (lower (get_or_empty (skill_name s)))
      then ''skills''
      else if \<exists>tag \<in> set (ad_tags agent). sublist (lower q) (lower tag)
      then ''tags''
      else ''description'')
   \<and> (semantic_search encode cd tie db req = Inr resp \<longrightarrow>
        (\<exists>qe rows.
            encode (query req) = Inr qe
            \<and> search_similar cd tie db qe (top_k req) (min_score req)
                  (tags_filter_of (filters req)) (verified_only_of (filters req)) = Inr rows
            \<and> map res_agent_id (results resp) = map (\<lambda>row. ad_agent_id (fst row)) rows
            \<and> map similarity_score (results resp) = map (\<lambda>row. py_round (snd row) 4) rows
            \<and> map matched_on (results resp)
                = map (\<lambda>row. determine_matched_on (query req) (fst row)) rows))"
proof (intro conjI impI)
  show "determine_matched_on q agent =
     (if sublist (lower q) (lower (get_or_empty (card_name (ad_agent_card agent))))
      then ''name''
      else if \<exists>s \<in> set (card_skills (ad_agent_card agent)).
                 sublist (lower q) (lower (get_or_empty (skill_name s)))
      then ''skills''
      else if \<exists>tag \<in> set (ad_tags agent). sublist (lower q) (lower tag)
      then ''tags''
      else ''description'')"
    by (simp add: determine_matched_on_def Let_def str_in_sublist list_ex_iff)
next
  assume "semantic_search encode cd tie db req = Inr resp"
  then obtain qe rows where
    e: "encode (query req) = Inr qe"
    and s: "search_similar cd tie db qe (top_k req) (min_score req)
              (tags_filter_of (filters req)) (verified_only_of (filters req)) = Inr rows"
    and f: "format_results (query req) rows = Inr (results resp)"
    by (rule semantic_search_Inr)
  from e s format_results_agent_ids [OF f] format_results_scores [OF f]
    format_results_matched_on [OF f]
  show "\<exists>qe rows.
            encode (query req) = Inr qe
            \<and> search_similar cd tie db qe (top_k req) (min_score req)
                  (tags_filter_of (filters req)) (verified_only_of (filters req)) = Inr rows
            \<and> map res_agent_id (results resp) = map (\<lambda>row. ad_agent_id (fst row)) rows
            \<and> map similarity_score (results resp) = map (\<lambda>row. py_round (snd row) 4) rows
            \<and> map matched_on (results resp)
                = map (\<lambda>row. determine_matched_on (query req) (fst row)) rows"
    by blast
qed

theorem matched_on_priority_and_independence_witness:
  "determine_matched_on ''TRANSLAT'' sample_agent_c = ''name''
   \<and> determine_matched_on ''Translate'' sample_agent_b = ''skills''
   \<and> determine_matched_on ''Translate'' sample_agent_a = ''tags''
   \<and> determine_matched_on ''Translate'' sample_agent_c = ''description''
   \<and> semantic_search sample_encode sample_cosine_distance sample_scan_rank sample_db
        \<lparr>query = ''Translate'', top_k = 10, min_score = 3 / 10, filters = None\<rparr>
     = Inr \<lparr>resp_query = ''Translate'',
            results = [sample_hit sample_agent_c (3 / 5) ''description'',
                       sample_hit sample_agent_b (3846 / 10000) ''skills'',
                       sample_hit sample_agent_a (3846 / 10000) ''tags''],
            total = 3\<rparr>
   \<and> search_similar sample_cosine_distance sample_scan_rank sample_db (pad_embedding [1, 0]) 10 (3 / 10)
        None False
     = Inr [(sample_agent_c, 3 / 5), (sample_agent_b, 5 / 13), (sample_agent_a, 5 / 13)]"
proof -
  let ?req = "\<lparr>query = ''Translate'', top_k = 10, min_score = 3 / 10, filters = None\<rparr>"
  let ?resp = "\<lparr>resp_query = ''Translate'',
            results = [sample_hit sample_agent_c (3 / 5) ''description'',
                       sample_hit sample_agent_b (3846 / 10000) ''skills'',
                       sample_hit sample_agent_a (3846 / 10000) ''tags''],
            total = 3\<rparr>"
  have lo: "lower ''TRANSLAT'' = ''translat''" by code_simp
  have sub: "sublist ''translat'' ''translator''"
    unfolding str_in_sublist [symmetric] by simp
  have run: "semantic_search sample_encode sample_cosine_distance sample_scan_rank sample_db ?req = Inr ?resp"
    by (simp add: sample_search_low)
  note m = matched_on_priority_and_independence
             [of _ _ sample_encode sample_cosine_distance sample_scan_rank sample_db ?req ?resp]
  from m [of "''TRANSLAT''" sample_agent_c] sub
  have "determine_matched_on ''TRANSLAT'' sample_agent_c = ''name''"
    by (simp add: sample_agent_c_def sample_card_def get_or_empty_def lo sample_lower)
  moreover from m [of "''Translate''" sample_agent_c] run
  obtain qe rows where
    "sample_encode ''Translate'' = Inr qe"
    "search_similar sample_cosine_distance sample_scan_rank sample_db qe 10 (3 / 10) None False = Inr rows"
    by (auto simp: tags_filter_of_def verified_only_of_def)
  then have "search_similar sample_cosine_distance sample_scan_rank sample_db (pad_embedding [1, 0]) 10 (3 / 10)
        None False = Inr rows"
    by (auto simp: sample_encode_def)
  ultimately show ?thesis
    using run by (simp add: sample_matched_on sample_search_similar_low)
qed

subsection \<open>Writes to the vector store\<close>

lemma store_embedding_registry:
  "store_embedding now db a e t = Inr db' \<Longrightarrow> registry_entries db' = registry_entries db"
  by (auto simp: store_embedding_def split: if_splits)

lemma store_embedding_agent_ids:
  assumes "store_embedding now db a e t = Inr db'"
  shows "map er_agent_id (agent_embeddings db') =
           (if a \<in> set (map er_agent_id (agent_embeddings db))
            then map er_agent_id (agent_embeddings db)
            else map er_agent_id (agent_embeddings db) @ [a])"
proof -
  have "map er_agent_id
          (map (\<lambda>row. if er_agent_id row = a
                       then row\<lparr>er_embedding := e, er_text_content := t, er_updated_at := now\<rparr>
                       else row) rows) = map er_agent_id rows" for rows
    by (induction rows) auto
  with assms show ?thesis
    by (auto simp: store_embedding_def split: if_splits)
qed

lemma store_embedding_distinct:
  assumes "store_embedding now db a e t = Inr db'"
      and "distinct (map er_agent_id (agent_embeddings db))"
  shows "distinct (map er_agent_id (agent_embeddings db'))"
  using assms(2) by (auto simp: store_embedding_agent_ids [OF assms(1)])

lemma store_embedding_row:
  assumes "store_embedding now db a e t = Inr db'"
  shows "\<exists>row \<in> set (agent_embeddings db').
           er_agent_id row = a \<and> er_embedding row = e \<and> er_text_content row = t"
proof (cases "a \<in> set (map er_agent_id (agent_embeddings db))")
  case True
  then obtain row where row: "row \<in> set (agent_embeddings db)" "er_agent_id row = a"
    by auto
  let ?row = "row\<lparr>er_embedding := e, er_text_content := t, er_updated_at := now\<rparr>"
  from assms True row have "?row \<in> set (agent_embeddings db')"
    by (force simp: store_embedding_def split: if_splits)
  with row(2) show ?thesis
    by (intro bexI [of _ ?row]) simp_all
next
  case False
  with assms show ?thesis
    by (auto simp: store_embedding_def split: if_splits)
qed

lemma store_embedding_other_rows:
  assumes "store_embedding now db a e t = Inr db'"
      and "row \<in> set (agent_embeddings db)" and "er_agent_id row \<noteq> a"
  shows "row \<in> set (agent_embeddings db')"
  using assms by (force simp: store_embedding_def split: if_splits)

lemma store_embedding_fails_iff:
  "isl (store_embedding now db a e t) \<longleftrightarrow>
     length a > agent_id_max_length \<or> length e \<noteq> embedding_dimension
     \<or> a \<notin> set (map re_agent_id (registry_entries db))"
  by (simp add: store_embedding_def)

lemma count_of_distinct_key:
  assumes "distinct (map f xs)" and "a \<in> set (map f xs)"
  shows "length (filter (\<lambda>x. f x = a) xs) = 1"
  using assms
proof (induction xs)
  case Nil
  then show ?case by simp
next
  case (Cons x xs)
  show ?case
  proof (cases "f x = a")
    case True
    from Cons.prems(1) have "f x \<notin> f ` set xs" by simp
    with True have "\<forall>y \<in> set xs. f y \<noteq> a" by blast
    then have "filter (\<lambda>x. f x = a) xs = []"
      by (simp add: filter_empty_conv)
    with True show ?thesis by simp
  next
    case False
    with Cons show ?thesis by auto
  qed
qed

subsection \<open>Indexing one agent twice\<close>

lemma store_embedding_rows_of_agent:
  assumes "store_embedding now db a e t = Inr db'"
      and "row \<in> set (agent_embeddings db')" and "er_agent_id row = a"
  shows "er_embedding row = e \<and> er_text_content row = t \<and> er_updated_at row = now"
proof (cases "a \<in> set (map er_agent_id (agent_embeddings db))")
  case True
  with assms(1) have "agent_embeddings db' =
      map (\<lambda>row. if er_agent_id row = a
                  then row\<lparr>er_embedding := e, er_text_content := t, er_updated_at := now\<rparr>
                  else row) (agent_embeddings db)"
    by (auto simp: store_embedding_def split: if_splits)
  with assms(2) obtain old where "old \<in> set (agent_embeddings db)"
    and "row = (if er_agent_id old = a
                then old\<lparr>er_embedding := e, er_text_content := t, er_updated_at := now\<rparr>
                else old)"
    by auto
  with assms(3) show ?thesis
    by (cases "er_agent_id old = a") auto
next
  case False
  let ?new = "\<lparr>er_id = agent_embeddings_id_seq db + 1, er_agent_id = a, er_embedding = e,
        er_text_content = t, er_created_at = now, er_updated_at = now\<rparr>"
  from False assms(1) have "agent_embeddings db' = agent_embeddings db @ [?new]"
    by (auto simp: store_embedding_def split: if_splits)
  with assms(2) have "row \<in> set (agent_embeddings db) \<or> row = ?new"
    by auto
  moreover from False assms(3) have "row \<notin> set (agent_embeddings db)"
    by auto
  ultimately have "row = ?new" by blast
  then show ?thesis
    by (metis embedding_row.select_convs(3,4,6))
qed

text \<open>
  Claim C4. On a table whose agent ids are pairwise different, every write of
  \<^verbatim>\<open>store_embedding\<close> that succeeds leaves them pairwise different. If a call of
  the single-agent index operation succeeds, a second call with the same request
  succeeds as well, changes no agent id of the table and adds no row, and after each
  of the two calls the table holds exactly one row for the agent. The first call adds
  a row only if the table had none for the agent; after each call the agent's row
  holds the embedding and the reference text of the request and the time of that
  call, whatever it held before, and the rows of the other agents are as they were.
\<close>

theorem index_agent_twice_one_entry:
  assumes "distinct (map er_agent_id (agent_embeddings db))"
      and "index_agent encode now1 db request = Inr (db1, dim1)"
  shows "(\<forall>now a e t db'. store_embedding now db a e t = Inr db' \<longrightarrow>
            distinct (map er_agent_id (agent_embeddings db')))
       \<and> length (filter (\<lambda>row. er_agent_id row = ia_agent_id request) (agent_embeddings db1)) = 1
       \<and> (\<exists>db2. index_agent encode now2 db1 request = Inr (db2, dim1)
             \<and> map er_agent_id (agent_embeddings db2) = map er_agent_id (agent_embeddings db1)
             \<and> distinct (map er_agent_id (agent_embeddings db2))
             \<and> length (filter (\<lambda>row. er_agent_id row = ia_agent_id request)
                  (agent_embeddings db2)) = 1)
       \<and> map er_agent_id (agent_embeddings db1) =
           (if ia_agent_id request \<in> set (map er_agent_id (agent_embeddings db))
            then map er_agent_id (agent_embeddings db)
            else map er_agent_id (agent_embeddings db) @ [ia_agent_id request])
       \<and> (\<forall>row \<in> set (agent_embeddings db).
             er_agent_id row \<noteq> ia_agent_id request \<longrightarrow> row \<in> set (agent_embeddings db1))
       \<and> (\<exists>emb. embed_agent encode (ia_agent_card request) (ia_tags request) = Inr emb
             \<and> (\<forall>row \<in> set (agent_embeddings db1).
                   er_agent_id row = ia_agent_id request \<longrightarrow>
                   er_embedding row = emb
                   \<and> er_text_content row
                       = text_content_of (ia_agent_card request) (ia_tags request)
                   \<and> er_updated_at row = now1)
             \<and> (\<forall>db2. index_agent encode now2 db1 request = Inr (db2, dim1) \<longrightarrow>
                   (\<forall>row \<in> set (agent_embeddings db2).
                      er_agent_id row = ia_agent_id request \<longrightarrow>
                      er_embedding row = emb
                      \<and> er_text_content row
                          = text_content_of (ia_agent_card request) (ia_tags request)
                      \<and> er_updated_at row = now2)
                   \<and> (\<forall>row \<in> set (agent_embeddings db1).
                        er_agent_id row \<noteq> ia_agent_id request \<longrightarrow>
                        row \<in> set (agent_embeddings db2))))"
proof -
  let ?id = "ia_agent_id request"
  let ?text = "text_content_of (ia_agent_card request) (ia_tags request)"
  from assms(2) obtain emb where
    emb: "embed_agent encode (ia_agent_card request) (ia_tags request) = Inr emb"
    and st1: "store_embedding now1 db ?id emb ?text = Inr db1"
    and dim: "dim1 = length emb"
    by (auto simp: index_agent_def split: sum.splits)
  have inv: "\<forall>now a e t db'. store_embedding now db a e t = Inr db' \<longrightarrow>
               distinct (map er_agent_id (agent_embeddings db'))"
    using store_embedding_distinct [OF _ assms(1)] by blast
  have d1: "distinct (map er_agent_id (agent_embeddings db1))"
    by (rule store_embedding_distinct [OF st1 assms(1)])
  have in1: "?id \<in> set (map er_agent_id (agent_embeddings db1))"
    using store_embedding_row [OF st1] by force
  have c1: "length (filter (\<lambda>row. er_agent_id row = ?id) (agent_embeddings db1)) = 1"
    by (rule count_of_distinct_key [OF d1 in1])
  have "\<not> isl (store_embedding now1 db ?id emb ?text)"
    by (simp add: st1)
  then have "\<not> isl (store_embedding now2 db1 ?id emb ?text)"
    by (simp add: store_embedding_fails_iff store_embedding_registry [OF st1])
  then obtain db2 where st2: "store_embedding now2 db1 ?id emb ?text = Inr db2"
    by (cases "store_embedding now2 db1 ?id emb ?text") auto
  have ids2: "map er_agent_id (agent_embeddings db2) = map er_agent_id (agent_embeddings db1)"
    using store_embedding_agent_ids [OF st2] in1 by simp
  have d2: "distinct (map er_agent_id (agent_embeddings db2))"
    by (simp add: ids2 d1)
  have c2: "length (filter (\<lambda>row. er_agent_id row = ?id) (agent_embeddings db2)) = 1"
    by (rule count_of_distinct_key [OF d2]) (simp add: ids2 in1 del: set_map)
  have run2: "index_agent encode now2 db1 request = Inr (db2, dim1)"
    by (simp add: index_agent_def emb st2 dim)
  from run2 ids2 d2 c2
  have second: "\<exists>db2. index_agent encode now2 db1 request = Inr (db2, dim1)
             \<and> map er_agent_id (agent_embeddings db2) = map er_agent_id (agent_embeddings db1)
             \<and> distinct (map er_agent_id (agent_embeddings db2))
             \<and> length (filter (\<lambda>row. er_agent_id row = ?id) (agent_embeddings db2)) = 1"
    by blast
  have ids1: "map er_agent_id (agent_embeddings db1) =
           (if ?id \<in> set (map er_agent_id (agent_embeddings db))
            then map er_agent_id (agent_embeddings db)
            else map er_agent_id (agent_embeddings db) @ [?id])"
    by (rule store_embedding_agent_ids [OF st1])
  have others1: "\<forall>row \<in> set (agent_embeddings db).
             er_agent_id row \<noteq> ?id \<longrightarrow> row \<in> set (agent_embeddings db1)"
    using store_embedding_other_rows [OF st1] by blast
  have content1: "\<forall>row \<in> set (agent_embeddings db1). er_agent_id row = ?id \<longrightarrow>
             er_embedding row = emb \<and> er_text_content row = ?text \<and> er_updated_at row = now1"
    using store_embedding_rows_of_agent [OF st1] by blast
  have content2: "\<forall>d. index_agent encode now2 db1 request = Inr (d, dim1) \<longrightarrow>
             (\<forall>row \<in> set (agent_embeddings d). er_agent_id row = ?id \<longrightarrow>
                er_embedding row = emb \<and> er_text_content row = ?text
                \<and> er_updated_at row = now2)
             \<and> (\<forall>row \<in> set (agent_embeddings db1).
                  er_agent_id row \<noteq> ?id \<longrightarrow> row \<in> set (agent_embeddings d))"
  proof (intro allI impI)
    fix d
    assume "index_agent encode now2 db1 request = Inr (d, dim1)"
    with run2 have "d = db2" by simp
    with store_embedding_rows_of_agent [OF st2] store_embedding_other_rows [OF st2]
    show "(\<forall>row \<in> set (agent_embeddings d). er_agent_id row = ?id \<longrightarrow>
                er_embedding row = emb \<and> er_text_content row = ?text
                \<and> er_updated_at row = now2)
             \<and> (\<forall>row \<in> set (agent_embeddings db1).
                  er_agent_id row \<noteq> ?id \<longrightarrow> row \<in> set (agent_embeddings d))"
      by blast
  qed
  from emb content1 content2
  have content: "\<exists>emb. embed_agent encode (ia_agent_card request) (ia_tags request) = Inr emb
             \<and> (\<forall>row \<in> set (agent_embeddings db1). er_agent_id row = ?id \<longrightarrow>
                   er_embedding row = emb \<and> er_text_content row = ?text
                   \<and> er_updated_at row = now1)
             \<and> (\<forall>db2. index_agent encode now2 db1 request = Inr (db2, dim1) \<longrightarrow>
                   (\<forall>row \<in> set (agent_embeddings db2). er_agent_id row = ?id \<longrightarrow>
                      er_embedding row = emb \<and> er_text_content row = ?text
                      \<and> er_updated_at row = now2)
                   \<and> (\<forall>row \<in> set (agent_embeddings db1).
                        er_agent_id row \<noteq> ?id \<longrightarrow> row \<in> set (agent_embeddings db2)))"
    by blast
  from inv c1 second ids1 others1 content show ?thesis
    by (intro conjI)
qed

theorem index_agent_twice_one_entry_witness:
  "distinct (map er_agent_id (agent_embeddings sample_db))
   \<and> map er_embedding (agent_embeddings sample_db)
       = [pad_embedding [5, 12], pad_embedding [5, 12], pad_embedding [3, 4]]
   \<and> index_agent sample_encode 5 sample_db
        \<lparr>ia_agent_id = ''agent-b'', ia_agent_card = sample_card ''Polyglot'' ''translate'',
         ia_tags = [''nlp'']\<rparr>
     = Inr (sample_db
              \<lparr>agent_embeddings :=
                 (hd (agent_embeddings sample_db))
                    \<lparr>er_embedding := pad_embedding [1, 0], er_updated_at := 5\<rparr>
                 # tl (agent_embeddings sample_db),
               agent_embeddings_id_seq := 4\<rparr>, 384)
   \<and> index_agent sample_encode 6
        (sample_db
           \<lparr>agent_embeddings :=
              (hd (agent_embeddings sample_db))
                 \<lparr>er_embedding := pad_embedding [1, 0], er_updated_at := 5\<rparr>
              # tl (agent_embeddings sample_db),
            agent_embeddings_id_seq := 4\<rparr>)
        \<lparr>ia_agent_id = ''agent-b'', ia_agent_card = sample_card ''Polyglot'' ''translate'',
         ia_tags = [''nlp'']\<rparr>
     = Inr (sample_db
              \<lparr>agent_embeddings :=
                 (hd (agent_embeddings sample_db))
                    \<lparr>er_embedding := pad_embedding [1, 0], er_updated_at := 6\<rparr>
                 # tl (agent_embeddings sample_db),
               agent_embeddings_id_seq := 5\<rparr>, 384)
   \<and> length (filter (\<lambda>row. er_agent_id row = ''agent-b'')
        ((hd (agent_embeddings sample_db))
            \<lparr>er_embedding := pad_embedding [1, 0], er_updated_at := 6\<rparr>
         # tl (agent_embeddings sample_db))) = 1
   \<and> map er_agent_id
        ((hd (agent_embeddings sample_db))
            \<lparr>er_embedding := pad_embedding [1, 0], er_updated_at := 5\<rparr>
         # tl (agent_embeddings sample_db))
       = map er_agent_id (agent_embeddings sample_db)"
proof -
  let ?req = "\<lparr>ia_agent_id = ''agent-b'', ia_agent_card = sample_card ''Polyglot'' ''translate'',
         ia_tags = [''nlp'']\<rparr>"
  let ?rows = "\<lambda>u. (hd (agent_embeddings sample_db))
                    \<lparr>er_embedding := pad_embedding [1, 0], er_updated_at := u\<rparr>
                 # tl (agent_embeddings sample_db)"
  let ?db1 = "sample_db\<lparr>agent_embeddings := ?rows 5, agent_embeddings_id_seq := 4\<rparr>"
  let ?db2 = "sample_db\<lparr>agent_embeddings := ?rows 6, agent_embeddings_id_seq := 5\<rparr>"
  have uniq: "distinct (map er_agent_id (agent_embeddings sample_db))"
    by (simp add: sample_db_def)
  have stale: "map er_embedding (agent_embeddings sample_db)
       = [pad_embedding [5, 12], pad_embedding [5, 12], pad_embedding [3, 4]]"
    by (simp add: sample_db_def)
  have first: "index_agent sample_encode 5 sample_db ?req = Inr (?db1, 384)"
    by (simp add: index_agent_def embed_agent_def combined_text_def text_parts_def
          skill_text_def text_content_of_def get_or_empty_def sample_card_def sample_encode_def
          store_embedding_def pad_embedding_def embedding_dimension_def agent_id_max_length_def
          sample_db_def sample_registry_def)
  have second: "index_agent sample_encode 6 ?db1 ?req = Inr (?db2, 384)"
    by (simp add: index_agent_def embed_agent_def combined_text_def text_parts_def
          skill_text_def text_content_of_def get_or_empty_def sample_card_def sample_encode_def
          store_embedding_def pad_embedding_def embedding_dimension_def agent_id_max_length_def
          sample_db_def sample_registry_def)
  note t = index_agent_twice_one_entry [OF uniq first, of 6]
  from t second
  have count: "length (filter (\<lambda>row. er_agent_id row = ia_agent_id ?req)
                 (agent_embeddings ?db2)) = 1"
    by auto
  from t have "map er_agent_id (agent_embeddings ?db1) =
           (if ia_agent_id ?req \<in> set (map er_agent_id (agent_embeddings sample_db))
            then map er_agent_id (agent_embeddings sample_db)
            else map er_agent_id (agent_embeddings sample_db) @ [ia_agent_id ?req])"
    by (rule conjunct1 [OF conjunct2 [OF conjunct2 [OF conjunct2]]])
  moreover have "ia_agent_id ?req \<in> set (map er_agent_id (agent_embeddings sample_db))"
    by (simp add: sample_db_def)
  ultimately have ids: "map er_agent_id (?rows 5) = map er_agent_id (agent_embeddings sample_db)"
    by simp
  from count have count': "length (filter (\<lambda>row. er_agent_id row = ''agent-b'') (?rows 6)) = 1"
    by simp
  from uniq stale first second count' ids show ?thesis
    by (intro conjI)
qed

subsection \<open>Indexing the whole directory\<close>

lemma index_snapshot_entry_registry:
  "index_snapshot_entry encode now db a = Inr db' \<Longrightarrow>
     registry_entries db' = registry_entries db"
  by (auto simp: index_snapshot_entry_def store_embedding_registry split: sum.splits)

lemma index_snapshot_entry_isl_cong:
  assumes "registry_entries db = registry_entries db0"
  shows "isl (index_snapshot_entry encode now db a)
         = isl (index_snapshot_entry encode now db0 a)"
  using assms
  by (cases "embed_agent encode (fst (snd a)) (snd (snd a))")
     (simp_all add: index_snapshot_entry_def store_embedding_fails_iff)

lemma index_snapshot_entry_row:
  assumes "index_snapshot_entry encode now db a = Inr db'"
  shows "\<exists>emb row. embed_agent encode (fst (snd a)) (snd (snd a)) = Inr emb
           \<and> row \<in> set (agent_embeddings db')
           \<and> er_agent_id row = fst a \<and> er_embedding row = emb
           \<and> er_text_content row = text_content_of (fst (snd a)) (snd (snd a))"
proof -
  from assms obtain emb where
    emb: "embed_agent encode (fst (snd a)) (snd (snd a)) = Inr emb"
    and st: "store_embedding now db (fst a) emb
               (text_content_of (fst (snd a)) (snd (snd a))) = Inr db'"
    by (auto simp: index_snapshot_entry_def split: sum.splits)
  from store_embedding_row [OF st] emb show ?thesis by blast
qed

lemma index_snapshot_entry_other_rows:
  assumes "index_snapshot_entry encode now db a = Inr db'"
      and "row \<in> set (agent_embeddings db)" and "er_agent_id row \<noteq> fst a"
  shows "row \<in> set (agent_embeddings db')"
  using assms
  by (auto simp: index_snapshot_entry_def split: sum.splits
      intro: store_embedding_other_rows)

lemma index_all_loop_counts:
  assumes "registry_entries db = registry_entries db0"
  shows "snd (index_all_loop encode now agents db i f)
           = (i + length (filter (\<lambda>a. \<not> isl (index_snapshot_entry encode now db0 a)) agents),
              f + length (filter (\<lambda>a. isl (index_snapshot_entry encode now db0 a)) agents))"
  using assms
proof (induction agents arbitrary: db i f)
  case Nil
  then show ?case by simp
next
  case (Cons a agents)
  note cong = index_snapshot_entry_isl_cong [OF Cons.prems, of encode now a]
  show ?case
  proof (cases "index_snapshot_entry encode now db a")
    case (Inl e)
    with cong have "isl (index_snapshot_entry encode now db0 a)" by simp
    with Inl Cons.IH [OF Cons.prems] show ?thesis by simp
  next
    case (Inr db')
    with cong have "\<not> isl (index_snapshot_entry encode now db0 a)" by simp
    moreover from Inr Cons.prems have "registry_entries db' = registry_entries db0"
      by (simp add: index_snapshot_entry_registry)
    ultimately show ?thesis
      using Inr Cons.IH [of db'] by simp
  qed
qed

lemma index_all_loop_keeps_rows:
  assumes "registry_entries db = registry_entries db0"
      and "row \<in> set (agent_embeddings db)"
      and "\<forall>a \<in> set agents. \<not> isl (index_snapshot_entry encode now db0 a)
             \<longrightarrow> fst a \<noteq> er_agent_id row"
  shows "row \<in> set (agent_embeddings (fst (index_all_loop encode now agents db i f)))"
  using assms
proof (induction agents arbitrary: db i f)
  case Nil
  then show ?case by simp
next
  case (Cons a agents)
  note cong = index_snapshot_entry_isl_cong [OF Cons.prems(1), of encode now a]
  from Cons.prems(3)
  have rest: "\<forall>a \<in> set agents. \<not> isl (index_snapshot_entry encode now db0 a)
                \<longrightarrow> fst a \<noteq> er_agent_id row"
    by simp
  show ?case
  proof (cases "index_snapshot_entry encode now db a")
    case (Inl e)
    with Cons.IH [OF Cons.prems(1,2) rest] show ?thesis by simp
  next
    case (Inr db')
    with cong have "\<not> isl (index_snapshot_entry encode now db0 a)" by simp
    with Cons.prems(3) have "er_agent_id row \<noteq> fst a" by auto
    from index_snapshot_entry_other_rows [OF Inr Cons.prems(2) this]
    have "row \<in> set (agent_embeddings db')" .
    moreover from Inr Cons.prems(1) have "registry_entries db' = registry_entries db0"
      by (simp add: index_snapshot_entry_registry)
    ultimately show ?thesis
      using Inr Cons.IH [of db', OF _ _ rest] by simp
  qed
qed

lemma index_all_loop_writes_rows:
  assumes "registry_entries db = registry_entries db0"
      and "distinct (map fst agents)"
      and "a \<in> set agents"
      and "\<not> isl (index_snapshot_entry encode now db0 a)"
  shows "\<exists>emb row. embed_agent encode (fst (snd a)) (snd (snd a)) = Inr emb
           \<and> row \<in> set (agent_embeddings (fst (index_all_loop encode now agents db i f)))
           \<and> er_agent_id row = fst a \<and> er_embedding row = emb
           \<and> er_text_content row = text_content_of (fst (snd a)) (snd (snd a))"
  using assms(1,2,3)
proof (induction agents arbitrary: db i f)
  case Nil
  then show ?case by simp
next
  case (Cons b agents)
  note cong = index_snapshot_entry_isl_cong [OF Cons.prems(1), of encode now b]
  from Cons.prems(2) have dist: "distinct (map fst agents)" and fresh: "fst b \<notin> fst ` set agents"
    by simp_all
  show ?case
  proof (cases "a = b")
    case True
    with assms(4) cong obtain db' where step: "index_snapshot_entry encode now db a = Inr db'"
      by (cases "index_snapshot_entry encode now db a") auto
    from index_snapshot_entry_row [OF step] obtain emb row where
      emb: "embed_agent encode (fst (snd a)) (snd (snd a)) = Inr emb"
      and row: "row \<in> set (agent_embeddings db')" "er_agent_id row = fst a"
        "er_embedding row = emb"
        "er_text_content row = text_content_of (fst (snd a)) (snd (snd a))"
      by blast
    from step Cons.prems(1) have reg: "registry_entries db' = registry_entries db0"
      by (simp add: index_snapshot_entry_registry)
    from fresh True row(2) have "\<forall>c \<in> set agents. fst c \<noteq> er_agent_id row"
      by (metis imageI)
    then have "row \<in> set (agent_embeddings
                 (fst (index_all_loop encode now agents db' (i + 1) f)))"
      by (intro index_all_loop_keeps_rows [OF reg row(1)]) simp
    with step True emb row(2,3,4) show ?thesis
      by auto
  next
    case False
    with Cons.prems(3) have mem: "a \<in> set agents" by simp
    show ?thesis
    proof (cases "index_snapshot_entry encode now db b")
      case (Inl e)
      with Cons.IH [OF Cons.prems(1) dist mem] show ?thesis by simp
    next
      case (Inr db')
      with Cons.prems(1) have "registry_entries db' = registry_entries db0"
        by (simp add: index_snapshot_entry_registry)
      from Cons.IH [OF this dist mem] Inr show ?thesis by simp
    qed
  qed
qed

lemma get_all_agents_distinct:
  "distinct (map re_agent_id (registry_entries db)) \<Longrightarrow> distinct (map fst (get_all_agents db))"
  by (simp add: get_all_agents_def comp_def distinct_map)

lemma filter_partition_length:
  "length (filter (\<lambda>x. \<not> P x) xs) = length xs - length (filter P xs)"
  using sum_length_filter_compl [of P xs] by simp

text \<open>
  Claim C2. Let the agent ids of the directory be pairwise different (they are the
  target of the foreign key), and let embedding or storing fail for exactly one agent
  of the snapshot. Then \<^verbatim>\<open>index_all_agents\<close> returns, with
  \<open>indexed_count = N - 1\<close> and \<open>failed_count = 1\<close> for the \<open>N\<close> agents of the
  snapshot; for every other agent the table afterwards holds a row with the agent's
  id, its embedding and its reference text; and the rows that the table held for the
  failing agent before the run are still there.
\<close>

theorem index_all_isolates_one_failure:
  assumes "distinct (map re_agent_id (registry_entries db))"
      and "length (filter (\<lambda>a. isl (index_snapshot_entry encode now db a))
             (get_all_agents db)) = 1"
  shows "\<exists>db'. index_all_agents encode now db
                 = Inr (db', \<lparr>indexed_count = length (get_all_agents db) - 1,
                               failed_count = 1\<rparr>)
           \<and> (\<forall>a \<in> set (get_all_agents db).
                 \<not> isl (index_snapshot_entry encode now db a) \<longrightarrow>
                 (\<exists>emb row. embed_agent encode (fst (snd a)) (snd (snd a)) = Inr emb
                    \<and> row \<in> set (agent_embeddings db')
                    \<and> er_agent_id row = fst a \<and> er_embedding row = emb
                    \<and> er_text_content row = text_content_of (fst (snd a)) (snd (snd a))))
           \<and> (\<forall>a \<in> set (get_all_agents db).
                 isl (index_snapshot_entry encode now db a) \<longrightarrow>
                 (\<forall>row \<in> set (agent_embeddings db).
                    er_agent_id row = fst a \<longrightarrow> row \<in> set (agent_embeddings db')))"
proof -
  let ?agents = "get_all_agents db"
  let ?run = "index_all_loop encode now ?agents db 0 0"
  let ?fails = "\<lambda>a. isl (index_snapshot_entry encode now db a)"
  have dist: "distinct (map fst ?agents)"
    by (rule get_all_agents_distinct [OF assms(1)])
  have "snd ?run = (length (filter (\<lambda>a. \<not> ?fails a) ?agents), length (filter ?fails ?agents))"
    using index_all_loop_counts [of db db encode now ?agents 0 0] by simp
  then have counts: "snd ?run = (length ?agents - 1, 1)"
    by (simp add: filter_partition_length assms(2))
  have result: "index_all_agents encode now db
          = Inr (fst ?run, \<lparr>indexed_count = length ?agents - 1, failed_count = 1\<rparr>)"
    by (simp add: index_all_agents_def Let_def counts)
  have written: "\<forall>a \<in> set ?agents. \<not> ?fails a \<longrightarrow>
          (\<exists>emb row. embed_agent encode (fst (snd a)) (snd (snd a)) = Inr emb
             \<and> row \<in> set (agent_embeddings (fst ?run))
             \<and> er_agent_id row = fst a \<and> er_embedding row = emb
             \<and> er_text_content row = text_content_of (fst (snd a)) (snd (snd a)))"
    using index_all_loop_writes_rows [OF refl dist] by blast
  have kept: "\<forall>a \<in> set ?agents. ?fails a \<longrightarrow>
          (\<forall>row \<in> set (agent_embeddings db).
             er_agent_id row = fst a \<longrightarrow> row \<in> set (agent_embeddings (fst ?run)))"
  proof (intro ballI impI)
    fix a row
    assume a: "a \<in> set ?agents" "?fails a"
      and row: "row \<in> set (agent_embeddings db)" "er_agent_id row = fst a"
    have "\<forall>c \<in> set ?agents. \<not> ?fails c \<longrightarrow> fst c \<noteq> er_agent_id row"
    proof (intro ballI impI)
      fix c assume c: "c \<in> set ?agents" "\<not> ?fails c"
      with a have "c \<noteq> a" by auto
      with dist a(1) c(1) have "fst c \<noteq> fst a"
        by (auto simp: distinct_map inj_on_def)
      with row(2) show "fst c \<noteq> er_agent_id row" by simp
    qed
    from index_all_loop_keeps_rows [OF refl row(1) this]
    show "row \<in> set (agent_embeddings (fst ?run))" .
  qed
  from result written kept show ?thesis by blast
qed

lemmas sample_index_defs =
  get_all_agents_def index_snapshot_entry_def embed_agent_def combined_text_def text_parts_def
  skill_text_def text_content_of_def get_or_empty_def sample_card_def sample_encode_def
  store_embedding_def pad_embedding_def embedding_dimension_def agent_id_max_length_def
  sample_unindexed_db_def sample_registry_def

theorem index_all_isolates_one_failure_witness:
  "distinct (map re_agent_id (registry_entries sample_unindexed_db))
   \<and> length (filter (\<lambda>a. isl (index_snapshot_entry sample_encode 7 sample_unindexed_db a))
        (get_all_agents sample_unindexed_db)) = 1
   \<and> length (get_all_agents sample_unindexed_db) = 4
   \<and> (case index_all_agents sample_encode 7 sample_unindexed_db of
         Inl e \<Rightarrow> None | Inr run \<Rightarrow> Some (snd run))
     = Some \<lparr>indexed_count = 3, failed_count = 1\<rparr>
   \<and> (case index_all_agents sample_encode 7 sample_unindexed_db of
         Inl e \<Rightarrow> [] | Inr run \<Rightarrow> map er_agent_id (agent_embeddings (fst run)))
     = [''agent-b'', ''agent-a'', ''agent-c'']"
proof -
  have uniq: "distinct (map re_agent_id (registry_entries sample_unindexed_db))"
    by (simp add: sample_unindexed_db_def sample_registry_def)
  have one: "length (filter (\<lambda>a. isl (index_snapshot_entry sample_encode 7 sample_unindexed_db a))
               (get_all_agents sample_unindexed_db)) = 1"
    by (simp add: sample_index_defs)
  have n: "length (get_all_agents sample_unindexed_db) = 4"
    by (simp add: get_all_agents_def sample_unindexed_db_def sample_registry_def)
  from index_all_isolates_one_failure [OF uniq one] obtain db' where
    "index_all_agents sample_encode 7 sample_unindexed_db
       = Inr (db', \<lparr>indexed_count = length (get_all_agents sample_unindexed_db) - 1,
                    failed_count = 1\<rparr>)"
    by blast
  then have counts: "(case index_all_agents sample_encode 7 sample_unindexed_db of
         Inl e \<Rightarrow> None | Inr run \<Rightarrow> Some (snd run))
     = Some \<lparr>indexed_count = 3, failed_count = 1\<rparr>"
    by (simp add: n)
  have ids: "(case index_all_agents sample_encode 7 sample_unindexed_db of
         Inl e \<Rightarrow> [] | Inr run \<Rightarrow> map er_agent_id (agent_embeddings (fst run)))
     = [''agent-b'', ''agent-a'', ''agent-c'']"
    by (simp add: index_all_agents_def sample_index_defs)
  from uniq one n counts ids show ?thesis by blast
qed

end
